theory Spec2Isabelle
  imports Complex_Main "HOL-Library.Multiset"
begin

section \<open>Errors\<close>

text \<open>
  The script raises Python exceptions and never catches one, so every function that can
  raise returns \<open>error + 'a\<close> with \<open>Inl\<close> the exception. Python's \<open>ValueError\<close> is raised at
  several places; each place has a constructor of its own, named after the failure, so that
  a theorem can tell which \<open>raise\<close> was taken.
\<close>

datatype error =
    FilenameFormatError   \<comment> \<open>\<open>ValueError\<close> raised by \<open>parse_spot_start_datetime\<close> when the regex finds no match\<close>
  | StrptimeValueError    \<comment> \<open>\<open>ValueError\<close> raised inside \<open>datetime.strptime\<close>\<close>
  | SchemaError "string list"  \<comment> \<open>\<open>ValueError\<close> of \<open>load_spot_positions\<close>: required columns missing\<close>
  | IntCastError          \<comment> \<open>\<open>astype(int)\<close> failed on a cell of \<open>frame_index\<close>\<close>
  | NumericParseError     \<comment> \<open>\<open>ValueError\<close> raised by \<open>float(text)\<close>\<close>
  | KeyError              \<comment> \<open>\<open>spot_df.at[0, ...]\<close> on a table without rows\<close>
  | OverflowError         \<comment> \<open>\<open>start_dt + timedelta(...)\<close> outside the years 1..9999\<close>
  | IndexError            \<comment> \<open>\<open>df.columns[0]\<close> on a table without columns\<close>
  | ColumnInferenceError  \<comment> \<open>\<open>ValueError\<close> raised by \<open>_identify_temperature_columns\<close>\<close>
  | DateParseError        \<comment> \<open>\<open>pd.to_datetime\<close> (default \<open>errors="raise"\<close>) met a cell it cannot parse\<close>
  | IncompatibleMergeKeys \<comment> \<open>\<open>MergeError\<close> of \<open>pd.merge_asof\<close>: the key columns differ in dtype\<close>
  | MergeKeysNull         \<comment> \<open>\<open>pd.merge_asof\<close>: null values in the merge keys\<close>
  | KeysNotSorted         \<comment> \<open>\<open>pd.merge_asof\<close>: keys must be sorted\<close>

section \<open>Characters and digit strings\<close>

text \<open>
  Strings are lists of 8-bit characters: the model covers ASCII file names, column names
  and tokens. (Python's \<open>\d\<close>, \<open>str.lower\<close> and \<open>str.strip\<close> also know the non-ASCII
  digits, letters and spaces of Unicode, which are outside this model.)
\<close>

definition is_digit :: "char \<Rightarrow> bool" where
  "is_digit c = (c \<in> set ''0123456789'')"

definition digit_val :: "char \<Rightarrow> nat" where
  "digit_val c = of_char c - 48"

definition nat_of_digits :: "string \<Rightarrow> nat" where
  "nat_of_digits ds = foldl (\<lambda>a c. 10 * a + digit_val c) 0 ds"

section \<open>Acquisition start from the file name\<close>

text \<open>
  \<open>SPOT_FILENAME_PATTERN = re.compile(r"spot_position_(\d{8})_(\d{6})\.txt$")\<close>.
  \<open>match_here\<close> is the pattern tried at the start of \<open>s\<close>: the literal prefix (14
  characters), eight digits, an underscore, six digits, \<open>.txt\<close>, and then \<open>$\<close>, which in
  Python holds at the end of the string and just before a newline that ends the string.
  \<open>SPOT_FILENAME_PATTERN_search\<close> is \<open>pattern.search\<close>: the start positions are tried from
  left to right, and the two groups of the first match are returned.
\<close>

definition match_here :: "string \<Rightarrow> (string \<times> string) option" where
  "match_here s =
     (let lit = take 14 s;
          d = take 8 (drop 14 s);
          u = take 1 (drop 22 s);
          t = take 6 (drop 23 s);
          ext = take 4 (drop 29 s);
          rest = drop 33 s
      in if lit = ''spot_position_'' \<and> length d = 8 \<and> list_all is_digit d \<and> u = ''_''
            \<and> length t = 6 \<and> list_all is_digit t \<and> ext = ''.txt''
            \<and> (rest = [] \<or> rest = [CHR 0x0A])
         then Some (d, t) else None)"

fun SPOT_FILENAME_PATTERN_search :: "string \<Rightarrow> (string \<times> string) option" where
  "SPOT_FILENAME_PATTERN_search [] = match_here []"
| "SPOT_FILENAME_PATTERN_search (c # cs) =
     (case match_here (c # cs) of
        Some g \<Rightarrow> Some g
      | None \<Rightarrow> SPOT_FILENAME_PATTERN_search cs)"

text \<open>
  A naive \<open>datetime\<close> object, as Python stores it: its calendar fields (the microsecond is
  always 0 here).
\<close>

record datetime =
  year :: nat
  month :: nat
  day :: nat
  hour :: nat
  minute :: nat
  second :: nat

definition is_leap :: "nat \<Rightarrow> bool" where
  "is_leap y = (y mod 4 = 0 \<and> (y mod 100 \<noteq> 0 \<or> y mod 400 = 0))"

definition days_in_month :: "nat \<Rightarrow> nat \<Rightarrow> nat" where
  "days_in_month y m =
     (if m = 2 then (if is_leap y then 29 else 28)
      else if m = 4 \<or> m = 6 \<or> m = 9 \<or> m = 11 then 30 else 31)"

text \<open>
  \<open>datetime.strptime(s, "%Y%m%d%H%M%S")\<close> on the text the caller passes, the fourteen
  digits of the two groups. The directives read at most 4, 2, 2, 2, 2 and 2 characters and
  the whole text must be consumed, so on fourteen digits every field takes its full width;
  the directives accept the months 01..12, the days 01..31, the hours 00..23, the minutes
  00..59 and the seconds 00..61, and building the \<open>datetime\<close> then rejects the year 0, a day
  beyond the month's length and the seconds 60 and 61. Every failure is a \<open>ValueError\<close>.
\<close>

definition strptime :: "string \<Rightarrow> error + datetime" where
  "strptime s =
     (let y = nat_of_digits (take 4 s);
          mo = nat_of_digits (take 2 (drop 4 s));
          d = nat_of_digits (take 2 (drop 6 s));
          h = nat_of_digits (take 2 (drop 8 s));
          mi = nat_of_digits (take 2 (drop 10 s));
          sec = nat_of_digits (take 2 (drop 12 s))
      in if length s = 14 \<and> list_all is_digit s
            \<and> 1 \<le> y \<and> 1 \<le> mo \<and> mo \<le> 12 \<and> 1 \<le> d \<and> d \<le> days_in_month y mo
            \<and> h \<le> 23 \<and> mi \<le> 59 \<and> sec \<le> 59
         then Inr \<lparr>year = y, month = mo, day = d, hour = h, minute = mi, second = sec\<rparr>
         else Inl StrptimeValueError)"

definition parse_spot_start_datetime :: "string \<Rightarrow> error + datetime" where
  "parse_spot_start_datetime path_name =
     (case SPOT_FILENAME_PATTERN_search path_name of
        None \<Rightarrow> Inl FilenameFormatError
      | Some (date_str, time_str) \<Rightarrow> strptime (date_str @ time_str))"

text \<open>
  The property of the specification speaks of formatting the parsed instant back into an
  8-digit date and a 6-digit time. The script has no formatter; \<open>format_date8\<close> and
  \<open>format_time6\<close> are the zero-padded decimal renderings the specification describes
  (\<open>%Y%m%d\<close> and \<open>%H%M%S\<close>).
\<close>

definition digit_char :: "nat \<Rightarrow> char" where
  "digit_char d = ''0123456789'' ! d"

definition fmt2 :: "nat \<Rightarrow> string" where
  "fmt2 n = [digit_char (n div 10 mod 10), digit_char (n mod 10)]"

definition fmt4 :: "nat \<Rightarrow> string" where
  "fmt4 n = fmt2 (n div 100) @ fmt2 (n mod 100)"

definition format_date8 :: "datetime \<Rightarrow> string" where
  "format_date8 dt = fmt4 (year dt) @ fmt2 (month dt) @ fmt2 (day dt)"

definition format_time6 :: "datetime \<Rightarrow> string" where
  "format_time6 dt = fmt2 (hour dt) @ fmt2 (minute dt) @ fmt2 (second dt)"

text \<open>
  The pattern in the specification's words: the name ends with
  \<open>spot_position_<8 digits>_<6 digits>.txt\<close>, after any prefix and before at most one final
  newline. \<open>digit_fields\<close> reads the six calendar fields off the two digit strings and
  \<open>valid_datetime\<close> says that they are a date and a time of day of the calendar.
\<close>

definition has_spot_pattern :: "string \<Rightarrow> string \<Rightarrow> string \<Rightarrow> bool" where
  "has_spot_pattern path_name d t =
     (\<exists>pre nl. path_name = pre @ ''spot_position_'' @ d @ ''_'' @ t @ ''.txt'' @ nl
        \<and> length d = 8 \<and> list_all is_digit d \<and> length t = 6 \<and> list_all is_digit t
        \<and> (nl = [] \<or> nl = [CHR 0x0A]))"

definition digit_fields :: "string \<Rightarrow> string \<Rightarrow> datetime" where
  "digit_fields d t =
     \<lparr>year = nat_of_digits (take 4 d), month = nat_of_digits (take 2 (drop 4 d)),
      day = nat_of_digits (drop 6 d), hour = nat_of_digits (take 2 t),
      minute = nat_of_digits (take 2 (drop 2 t)), second = nat_of_digits (drop 4 t)\<rparr>"

definition valid_datetime :: "datetime \<Rightarrow> bool" where
  "valid_datetime dt =
     (1 \<le> year dt \<and> 1 \<le> month dt \<and> month dt \<le> 12
      \<and> 1 \<le> day dt \<and> day dt \<le> days_in_month (year dt) (month dt)
      \<and> hour dt \<le> 23 \<and> minute dt \<le> 59 \<and> second dt \<le> 59)"

section \<open>Instants\<close>

text \<open>
  The timestamps of both tables are instants on one time line, counted in nanoseconds (the
  unit of pandas' \<open>datetime64[ns]\<close>) from 0001-01-01 00:00:00, the origin of Python's
  proleptic Gregorian ordinals. \<open>ymd2ord\<close> is the ordinal of a date as \<open>datetime\<close> computes
  it (0001-01-01 has ordinal 1). The bounds of \<open>datetime64[ns]\<close> (the years 1677 to 2262)
  and time zones are not modelled.
\<close>

type_synonym instant = int

definition days_before_year :: "int \<Rightarrow> int" where
  "days_before_year y = (let p = y - 1 in p * 365 + p div 4 - p div 100 + p div 400)"

definition days_before_month :: "nat \<Rightarrow> nat \<Rightarrow> int" where
  "days_before_month y m =
     [0, 31, 59, 90, 120, 151, 181, 212, 243, 273, 304, 334] ! (m - 1)
       + (if 2 < m \<and> is_leap y then 1 else 0)"

definition ymd2ord :: "nat \<Rightarrow> nat \<Rightarrow> nat \<Rightarrow> int" where
  "ymd2ord y m d = days_before_year (int y) + days_before_month y m + int d"

definition datetime_to_instant :: "datetime \<Rightarrow> instant" where
  "datetime_to_instant dt =
     (((ymd2ord (year dt) (month dt) (day dt) - 1) * 86400
        + int (hour dt) * 3600 + int (minute dt) * 60 + int (second dt)) * 1000000000)"

text \<open>
  \<open>start_dt + timedelta(minutes=int(frame))\<close>: exact integer arithmetic on the time line;
  Python raises \<open>OverflowError\<close> when the sum leaves the years 1..9999 (the last day,
  9999-12-31, has ordinal 3652059).
\<close>

definition add_minutes :: "datetime \<Rightarrow> int \<Rightarrow> error + instant" where
  "add_minutes start_dt frame =
     (let t = datetime_to_instant start_dt + frame * 60 * 1000000000
      in if 0 \<le> t \<and> t < 3652059 * 86400 * 1000000000 then Inr t else Inl OverflowError)"

section \<open>Floats\<close>

text \<open>
  A Python float is an IEEE 754 double: a not-a-number, an infinity or a finite number. A
  finite double is modelled by the rational it is equal to, and every operation that
  produces a double rounds its exact result with \<open>round_double\<close>: to the nearest double, to
  the one with the even significand on a tie, with 53 bits of significand for exponents
  from \<open>-1022\<close> to \<open>1023\<close>, with the fixed spacing \<open>2 ^ -1074\<close> below \<open>2 ^ -1022\<close> (the
  subnormal numbers), and to an infinity when the rounded magnitude reaches \<open>2 ^ 1024\<close>.
  The sign of zero is not modelled: \<open>0.0\<close> and \<open>-0.0\<close>, which \<open>==\<close> does not tell apart, are
  both \<open>Finite 0\<close>.
\<close>

datatype pyfloat = Finite rat | PosInf | NegInf | NaN

text \<open>\<open>bit_length n\<close> is the number of binary digits of \<open>n\<close>, as Python's \<open>int.bit_length\<close>.\<close>

fun bit_length :: "nat \<Rightarrow> nat" where
  "bit_length n = (if n = 0 then 0 else Suc (bit_length (n div 2)))"

declare bit_length.simps [simp del]

definition pow2 :: "int \<Rightarrow> rat" where
  "pow2 e = (if 0 \<le> e then 2 ^ nat e else 1 / 2 ^ nat (- e))"

text \<open>
  For a positive \<open>q\<close>, \<open>floor_log2 q\<close> is the exponent \<open>e\<close> with \<open>2 ^ e \<le> q < 2 ^ (e + 1)\<close>.
\<close>

definition floor_log2 :: "rat \<Rightarrow> int" where
  "floor_log2 q =
     (if 1 \<le> q then int (bit_length (nat \<lfloor>q\<rfloor>)) - 1
      else - int (bit_length (nat \<lceil>1 / q\<rceil> - 1)))"

definition round_half_even :: "rat \<Rightarrow> int" where
  "round_half_even q =
     (let f = \<lfloor>q\<rfloor>; r = q - of_int f
      in if r < 1 / 2 then f else if 1 / 2 < r then f + 1 else if even f then f else f + 1)"

definition round_double :: "rat \<Rightarrow> pyfloat" where
  "round_double q =
     (if q = 0 then Finite 0
      else (let a = \<bar>q\<bar>;
                e = max (floor_log2 a) (- 1022);
                ulp = pow2 (e - 52);
                v = of_int (round_half_even (a / ulp)) * ulp
            in if 2 ^ 1024 \<le> v then (if q < 0 then NegInf else PosInf)
               else Finite (if q < 0 then - v else v)))"

fun float_sub :: "pyfloat \<Rightarrow> pyfloat \<Rightarrow> pyfloat" where
  "float_sub NaN y = NaN"
| "float_sub x NaN = NaN"
| "float_sub PosInf PosInf = NaN"
| "float_sub NegInf NegInf = NaN"
| "float_sub PosInf y = PosInf"
| "float_sub NegInf y = NegInf"
| "float_sub (Finite a) PosInf = NegInf"
| "float_sub (Finite a) NegInf = PosInf"
| "float_sub (Finite a) (Finite b) = round_double (a - b)"

fun float_add :: "pyfloat \<Rightarrow> pyfloat \<Rightarrow> pyfloat" where
  "float_add NaN y = NaN"
| "float_add x NaN = NaN"
| "float_add PosInf NegInf = NaN"
| "float_add NegInf PosInf = NaN"
| "float_add PosInf y = PosInf"
| "float_add NegInf y = NegInf"
| "float_add (Finite a) PosInf = PosInf"
| "float_add (Finite a) NegInf = NegInf"
| "float_add (Finite a) (Finite b) = round_double (a + b)"

text \<open>\<open>x ** 2\<close> on a column of doubles: the rounded product \<open>x * x\<close>.\<close>

fun float_square :: "pyfloat \<Rightarrow> pyfloat" where
  "float_square NaN = NaN"
| "float_square PosInf = PosInf"
| "float_square NegInf = PosInf"
| "float_square (Finite a) = round_double (a * a)"


subsection \<open>The built-in \<open>float(text)\<close>\<close>

text \<open>
  \<open>float\<close> on an ASCII string, after CPython: underscores are removed when each stands
  between two digits (any other underscore is an error); the white space of C (\<open>is_space_c\<close>)
  is stripped at both ends; the rest is an optional sign followed by \<open>inf\<close>, \<open>infinity\<close> or
  \<open>nan\<close> in any letter case, or a decimal number: digits with at most one point, at least one
  digit, and an optional exponent \<open>e\<close> or \<open>E\<close> with an optional sign and at least one
  digit. Anything else raises \<open>ValueError\<close>. The value of a decimal number is its exact
  value rounded to the nearest double (\<open>1e400\<close> is an infinity, \<open>1e-400\<close> is zero).
\<close>

definition is_space_c :: "char \<Rightarrow> bool" where
  "is_space_c c = (c \<in> set [CHR 0x09, CHR 0x0A, CHR 0x0B, CHR 0x0C, CHR 0x0D, CHR '' ''])"

definition lower_char :: "char \<Rightarrow> char" where
  "lower_char c =
     (case map_of (zip ''ABCDEFGHIJKLMNOPQRSTUVWXYZ'' ''abcdefghijklmnopqrstuvwxyz'') c of
        Some l \<Rightarrow> l
      | None \<Rightarrow> c)"

definition lower :: "string \<Rightarrow> string" where
  "lower s = map lower_char s"

fun remove_underscores :: "char \<Rightarrow> string \<Rightarrow> string option" where
  "remove_underscores prev [] = (if prev = CHR ''_'' then None else Some [])"
| "remove_underscores prev (c # cs) =
     (if c = CHR ''_'' then (if is_digit prev then remove_underscores c cs else None)
      else if prev = CHR ''_'' \<and> \<not> is_digit c then None
      else map_option ((#) c) (remove_underscores c cs))"

definition split_sign :: "string \<Rightarrow> bool \<times> string" where
  "split_sign s =
     (case s of
        [] \<Rightarrow> (False, [])
      | c # cs \<Rightarrow> if c = CHR ''-'' then (True, cs) else if c = CHR ''+'' then (False, cs)
                 else (False, s))"

definition parse_inf_or_nan :: "string \<Rightarrow> pyfloat option" where
  "parse_inf_or_nan s =
     (let (negate, r) = split_sign s; l = lower r
      in if l = ''inf'' \<or> l = ''infinity'' then Some (if negate then NegInf else PosInf)
         else if l = ''nan'' then Some NaN
         else None)"

definition parse_exponent :: "string \<Rightarrow> int option" where
  "parse_exponent s =
     (case s of
        [] \<Rightarrow> Some 0
      | c # cs \<Rightarrow>
          if c = CHR ''e'' \<or> c = CHR ''E'' then
            (let (negate, ds) = split_sign cs
             in if ds \<noteq> [] \<and> list_all is_digit ds
                then Some (if negate then - int (nat_of_digits ds) else int (nat_of_digits ds))
                else None)
          else None)"

definition pow10 :: "int \<Rightarrow> rat" where
  "pow10 e = (if 0 \<le> e then 10 ^ nat e else 1 / 10 ^ nat (- e))"

definition parse_decimal :: "string \<Rightarrow> rat option" where
  "parse_decimal s =
     (let (negate, r0) = split_sign s;
          ip = takeWhile is_digit r0;
          r1 = dropWhile is_digit r0;
          (fp, r2) = (case r1 of
                        [] \<Rightarrow> ([], [])
                      | c # cs \<Rightarrow> if c = CHR ''.'' then (takeWhile is_digit cs, dropWhile is_digit cs)
                                 else ([], r1))
      in if ip = [] \<and> fp = [] then None
         else (case parse_exponent r2 of
                 None \<Rightarrow> None
               | Some e \<Rightarrow>
                   (let m = of_nat (nat_of_digits (ip @ fp)) * pow10 (e - int (length fp))
                    in Some (if negate then - m else m))))"

definition strip_c :: "string \<Rightarrow> string" where
  "strip_c s = rev (dropWhile is_space_c (rev (dropWhile is_space_c s)))"

definition py_float :: "string \<Rightarrow> error + pyfloat" where
  "py_float s =
     (case remove_underscores (CHR 0x00) s of
        None \<Rightarrow> Inl NumericParseError
      | Some t \<Rightarrow>
          (let u = strip_c t
           in case parse_inf_or_nan u of
                Some v \<Rightarrow> Inr v
              | None \<Rightarrow> (case parse_decimal u of
                           Some q \<Rightarrow> Inr (round_double q)
                         | None \<Rightarrow> Inl NumericParseError)))"

section \<open>The numeric normalizer\<close>

text \<open>
  \<open>str.strip()\<close> removes the white space of \<open>str.isspace\<close>, which among the ASCII
  characters also counts the four separators 0x1C..0x1F. \<open>str_find\<close> is \<open>text.find(".")\<close>:
  the index of the first occurrence, or \<open>-1\<close>.
\<close>

definition is_space_str :: "char \<Rightarrow> bool" where
  "is_space_str c = (c \<in> set [CHR 0x09, CHR 0x0A, CHR 0x0B, CHR 0x0C, CHR 0x0D,
                               CHR 0x1C, CHR 0x1D, CHR 0x1E, CHR 0x1F, CHR '' ''])"

definition py_strip :: "string \<Rightarrow> string" where
  "py_strip s = rev (dropWhile is_space_str (rev (dropWhile is_space_str s)))"

definition str_replace :: "char \<Rightarrow> char \<Rightarrow> string \<Rightarrow> string" where
  "str_replace old new s = map (\<lambda>c. if c = old then new else c) s"

fun str_find :: "string \<Rightarrow> char \<Rightarrow> int" where
  "str_find [] c = - 1"
| "str_find (x # xs) c =
     (if x = c then 0 else (let i = str_find xs c in if i < 0 then - 1 else i + 1))"

text \<open>
  \<open>clean_number\<close>. The argument is the cell as the function sees it: \<open>None\<close> when
  \<open>pd.isna(value)\<close> holds, \<open>Some\<close> of the text \<open>str(value)\<close> otherwise.
\<close>

definition clean_number :: "string option \<Rightarrow> error + pyfloat" where
  "clean_number val =
     (case val of
        None \<Rightarrow> Inr NaN
      | Some v \<Rightarrow>
          (let text = str_replace (CHR '','') (CHR ''.'') (py_strip v);
               text = (if 1 < count_list text (CHR ''.'')
                       then (let first_dot = str_find text (CHR ''.'')
                             in take (nat (first_dot + 1)) text
                                @ filter (\<lambda>c. c \<noteq> CHR ''.'') (drop (nat (first_dot + 1)) text))
                       else text)
           in py_float text))"

text \<open>
  The algorithm in the specification's words: every comma becomes a dot; when the result has
  more than one dot, the first dot stays and every later dot is removed.
\<close>

definition normalize_spec :: "string \<Rightarrow> string" where
  "normalize_spec token =
     (let text = map (\<lambda>c. if c = CHR '','' then CHR ''.'' else c) token
      in if 1 < length (filter (\<lambda>c. c = CHR ''.'') text)
         then takeWhile (\<lambda>c. c \<noteq> CHR ''.'') text
              @ CHR ''.'' # filter (\<lambda>c. c \<noteq> CHR ''.'') (dropWhile (\<lambda>c. c \<noteq> CHR ''.'') text)
         else text)"

section \<open>The spot log loader\<close>

text \<open>
  \<open>Series.apply(f)\<close> and \<open>Series.astype\<close> work through a column from its first row to its
  last; the first cell on which the function raises ends the run.
\<close>

fun series_apply :: "('a \<Rightarrow> error + 'b) \<Rightarrow> 'a list \<Rightarrow> error + 'b list" where
  "series_apply f [] = Inr []"
| "series_apply f (x # xs) =
     (case f x of
        Inl e \<Rightarrow> Inl e
      | Inr v \<Rightarrow> (case series_apply f xs of Inl e \<Rightarrow> Inl e | Inr vs \<Rightarrow> Inr (v # vs)))"

text \<open>
  The table that \<open>pd.read_csv(spot_path, sep=r"\s+")\<close> returns: the names of its columns,
  its rows in file order, and its index. The loader uses the index once, to find the row
  labelled 0, so the index is given by \<open>label_zero_row\<close>: the position of the row whose
  label is 0, or \<open>None\<close> when no row has that label. \<open>read_csv\<close> labels the rows
  \<open>0, 1, 2, ...\<close>, and then this is position 0 of a table with rows; but when the data lines
  have one field more than the header, it takes the first field of each line as the label
  of its row, and the row labelled 0 can be anywhere or nowhere. (Tables in which several
  rows carry the label 0 are not represented.) Of a row the loader reads six cells. The cell of
  \<open>frame_index\<close> is given by what \<open>astype(int)\<close> makes of it: \<open>Some n\<close>, or \<open>None\<close> when
  the cast raises (a missing value, a text that is no number). Each of the other five cells
  is given as \<open>clean_number\<close> receives it: \<open>None\<close> for a missing value, else its text.
\<close>

record spot_row =
  frame_index_cell :: "int option"
  center_x_cell :: "string option"
  center_y_cell :: "string option"
  minor_axis_cell :: "string option"
  major_axis_cell :: "string option"
  angle_cell :: "string option"

record spot_table =
  spot_columns :: "string list"
  spot_rows :: "spot_row list"
  label_zero_row :: "nat option"

record spot_frame =
  frame_index :: int
  center_x_mm :: pyfloat
  center_y_mm :: pyfloat
  minor_axis_mm :: pyfloat
  major_axis_mm :: pyfloat
  angle_deg :: pyfloat
  timestamp :: instant
  r_squared_shift_mm2 :: pyfloat

definition required_columns :: "string list" where
  "required_columns =
     [''frame_index'', ''center_x_mm'', ''center_y_mm'', ''minor_axis_mm'', ''major_axis_mm'',
      ''angle_deg'']"

definition astype_int :: "int option \<Rightarrow> error + int" where
  "astype_int c = (case c of None \<Rightarrow> Inl IntCastError | Some n \<Rightarrow> Inr n)"

definition r_squared_shift :: "pyfloat \<Rightarrow> pyfloat \<Rightarrow> pyfloat \<Rightarrow> pyfloat \<Rightarrow> pyfloat" where
  "r_squared_shift reference_x reference_y x y =
     float_add (float_square (float_sub x reference_x)) (float_square (float_sub y reference_y))"

text \<open>
  A row of the returned table, from its cells in the seven columns the loader has computed
  and the reference position.
\<close>

definition make_frame :: "pyfloat \<Rightarrow> pyfloat \<Rightarrow>
    int \<times> pyfloat \<times> pyfloat \<times> pyfloat \<times> pyfloat \<times> pyfloat \<times> instant \<Rightarrow> spot_frame" where
  "make_frame reference_x reference_y =
     (\<lambda>(f, x, y, mi, ma, an, ts).
        \<lparr>frame_index = f, center_x_mm = x, center_y_mm = y,
         minor_axis_mm = mi, major_axis_mm = ma, angle_deg = an,
         timestamp = ts,
         r_squared_shift_mm2 = r_squared_shift reference_x reference_y x y\<rparr>)"

text \<open>
  \<open>load_spot_positions\<close>, statement by statement: the start instant from the file name, the
  check of the required columns, the cast of \<open>frame_index\<close>, \<open>clean_number\<close> over the five
  parameter columns (one column after the other), the reference position
  \<open>spot_df.at[0, ...]\<close>, which is read off the row labelled 0 (\<open>KeyError\<close> when there is no
  such row, as in a table without rows), the timestamps and the shift.
\<close>

definition load_spot_positions :: "string \<Rightarrow> spot_table \<Rightarrow> error + spot_frame list" where
  "load_spot_positions path_name spot_df =
     (case parse_spot_start_datetime path_name of
        Inl e \<Rightarrow> Inl e
      | Inr start_dt \<Rightarrow>
     (let missing_columns = filter (\<lambda>col. col \<notin> set (spot_columns spot_df)) required_columns;
          rows = spot_rows spot_df
      in if missing_columns \<noteq> [] then Inl (SchemaError missing_columns)
         else
     (case series_apply astype_int (map frame_index_cell rows) of
        Inl e \<Rightarrow> Inl e
      | Inr frames \<Rightarrow>
     (case series_apply clean_number (map center_x_cell rows) of
        Inl e \<Rightarrow> Inl e
      | Inr xs \<Rightarrow>
     (case series_apply clean_number (map center_y_cell rows) of
        Inl e \<Rightarrow> Inl e
      | Inr ys \<Rightarrow>
     (case series_apply clean_number (map minor_axis_cell rows) of
        Inl e \<Rightarrow> Inl e
      | Inr minors \<Rightarrow>
     (case series_apply clean_number (map major_axis_cell rows) of
        Inl e \<Rightarrow> Inl e
      | Inr majors \<Rightarrow>
     (case series_apply clean_number (map angle_cell rows) of
        Inl e \<Rightarrow> Inl e
      | Inr angles \<Rightarrow>
     (case label_zero_row spot_df of
        None \<Rightarrow> Inl KeyError
      | Some z \<Rightarrow>
          if length rows \<le> z then Inl KeyError
          else
            (let reference_x = xs ! z; reference_y = ys ! z
             in case series_apply (add_minutes start_dt) frames of
                  Inl e \<Rightarrow> Inl e
                | Inr stamps \<Rightarrow>
                    Inr (map (make_frame reference_x reference_y)
                           (zip frames
                              (zip xs (zip ys (zip minors (zip majors (zip angles stamps)))))))))))))))))"

section \<open>The temperature log loader\<close>

text \<open>
  The table that \<open>pd.read_csv(temp_path)\<close> returns: its columns in file order, each with its
  name (\<open>read_csv\<close> makes the names distinct), whether pandas gave it a numeric dtype, and
  its cells. The two parsers of pandas are not re-implemented: a cell is given by what each
  of them makes of it. \<open>as_datetime\<close> is the cell under \<open>pd.to_datetime\<close> and \<open>as_numeric\<close>
  the cell under \<open>pd.to_numeric\<close>: a value, a missing value, or a text the parser cannot
  read.
\<close>

datatype 'a reading = Parsed 'a | Missing | Unparseable

record cell =
  as_datetime :: "instant reading"
  as_numeric :: "pyfloat reading"

record column =
  col_name :: string
  numeric_dtype :: bool
  cells :: "cell list"

text \<open>\<open>key in s\<close> on strings: \<open>key\<close> occurs in \<open>s\<close> as a contiguous piece.\<close>

fun contains :: "string \<Rightarrow> string \<Rightarrow> bool" where
  "contains key [] = (key = [])"
| "contains key (c # cs) = (take (length key) (c # cs) = key \<or> contains key cs)"

definition is_timestamp_name :: "string \<Rightarrow> bool" where
  "is_timestamp_name col =
     (contains ''time'' (lower col) \<or> contains ''date'' (lower col) \<or> lower col = ''timestamp'')"

definition is_temperature_name :: "string \<Rightarrow> bool" where
  "is_temperature_name col =
     list_ex (\<lambda>key. contains key (lower col)) [''temp'', ''deg'', ''celsius'']"

definition identify_temperature_columns :: "column list \<Rightarrow> error + (string \<times> string)" where
  "identify_temperature_columns df =
     (let names = map col_name df;
          timestamp_candidates = filter is_timestamp_name names
      in case (if timestamp_candidates = []
               then (case names of [] \<Rightarrow> Inl IndexError | first # _ \<Rightarrow> Inr [first])
               else Inr timestamp_candidates) of
           Inl e \<Rightarrow> Inl e
         | Inr timestamp_candidates \<Rightarrow>
             (let value_candidates =
                    filter (\<lambda>col. col \<notin> set timestamp_candidates \<and> is_temperature_name col) names;
                  value_candidates =
                    (if value_candidates = []
                     then map col_name
                            (filter (\<lambda>c. col_name c \<notin> set timestamp_candidates \<and> numeric_dtype c) df)
                     else value_candidates)
              in if timestamp_candidates = [] \<or> value_candidates = []
                 then Inl ColumnInferenceError
                 else Inr (hd timestamp_candidates, hd value_candidates)))"

text \<open>
  Column inference in the specification's words: the timestamp is the first column with a
  time-like name, else the first column; the temperature is the first column other than the
  timestamp column with a temperature-like name, else the first remaining numeric column.
\<close>

definition identify_columns_spec :: "column list \<Rightarrow> error + (string \<times> string)" where
  "identify_columns_spec df =
     (case df of
        [] \<Rightarrow> Inl ColumnInferenceError
      | first # _ \<Rightarrow>
          (let ts = (case find (\<lambda>c. is_timestamp_name (col_name c)) df of
                       Some c \<Rightarrow> col_name c
                     | None \<Rightarrow> col_name first);
               others = filter (\<lambda>c. col_name c \<noteq> ts) df
           in case find (\<lambda>c. is_temperature_name (col_name c)) others of
                Some c \<Rightarrow> Inr (ts, col_name c)
              | None \<Rightarrow> (case find numeric_dtype others of
                           Some c \<Rightarrow> Inr (ts, col_name c)
                         | None \<Rightarrow> Inl ColumnInferenceError)))"

text \<open>
  What the code sets aside when it looks for the temperature: every column with a
  time-like name when there is one, else the first column.
\<close>

definition set_aside :: "column list \<Rightarrow> string \<Rightarrow> bool" where
  "set_aside df col =
     (if list_ex (\<lambda>c. is_timestamp_name (col_name c)) df then is_timestamp_name col
      else col = col_name (hd df))"

text \<open>
  A row of the loaded temperature table: \<open>temp_timestamp\<close> is the column \<open>timestamp\<close>
  (\<open>None\<close> is pandas' \<open>NaT\<close>) and \<open>temperature_C\<close> the column of that name.
\<close>

record temp_row =
  temp_timestamp :: "instant option"
  temperature_C :: pyfloat

definition column_cells :: "column list \<Rightarrow> string \<Rightarrow> cell list" where
  "column_cells df col = (case find (\<lambda>c. col_name c = col) df of Some c \<Rightarrow> cells c | None \<Rightarrow> [])"

text \<open>
  \<open>pd.to_datetime(series)\<close> with its default \<open>errors="raise"\<close>: a missing value becomes
  \<open>NaT\<close>, a cell that cannot be parsed raises. \<open>pd.to_numeric(series, errors="coerce")\<close>: a
  missing value and a cell that cannot be parsed both become not-a-number.
\<close>

definition to_datetime :: "instant reading list \<Rightarrow> error + instant option list" where
  "to_datetime series =
     series_apply (\<lambda>r. case r of
                          Parsed t \<Rightarrow> Inr (Some t)
                        | Missing \<Rightarrow> Inr None
                        | Unparseable \<Rightarrow> Inl DateParseError) series"

definition to_numeric_coerce :: "pyfloat reading list \<Rightarrow> pyfloat list" where
  "to_numeric_coerce series = map (\<lambda>r. case r of Parsed v \<Rightarrow> v | _ \<Rightarrow> NaN) series"

definition dropna :: "temp_row list \<Rightarrow> temp_row list" where
  "dropna rows = filter (\<lambda>r. temp_timestamp r \<noteq> None \<and> temperature_C r \<noteq> NaN) rows"

definition time_key :: "temp_row \<Rightarrow> instant" where
  "time_key r = the (temp_timestamp r)"

text \<open>
  \<open>sort_values("timestamp")\<close>: ascending, missing timestamps last. pandas promises no
  order among rows of equal timestamp; the model takes the insertion sort of the library,
  which keeps them in their input order, as numpy's default sort does on short columns.
  Whatever the order, pandas computes it from the key column alone, so two tables with the
  same keys are rearranged alike.
\<close>

definition sort_values :: "temp_row list \<Rightarrow> temp_row list" where
  "sort_values rows =
     sort_key time_key (filter (\<lambda>r. temp_timestamp r \<noteq> None) rows)
       @ filter (\<lambda>r. temp_timestamp r = None) rows"

definition load_temperature_data :: "column list \<Rightarrow> error + temp_row list" where
  "load_temperature_data temp_df =
     (case identify_temperature_columns temp_df of
        Inl e \<Rightarrow> Inl e
      | Inr (timestamp_col, temperature_col) \<Rightarrow>
          (case to_datetime (map as_datetime (column_cells temp_df timestamp_col)) of
             Inl e \<Rightarrow> Inl e
           | Inr stamps \<Rightarrow>
               (let temps = to_numeric_coerce (map as_numeric (column_cells temp_df temperature_col));
                    rows = map (\<lambda>(t, v). \<lparr>temp_timestamp = t, temperature_C = v\<rparr>) (zip stamps temps)
                in Inr (sort_values (dropna rows)))))"

section \<open>The time aligner\<close>

text \<open>
  The dtype of a timestamp column: its resolution and its time zone (\<open>None\<close> for the naive
  timestamps). pandas chooses it when it builds the column (\<open>pd.to_datetime\<close> from the text
  of the cells, \<open>Series.apply\<close> from the Python \<open>datetime\<close> objects; the resolution it picks
  differs between versions of pandas), and the script never converts a column to another
  dtype. A table is therefore given to the aligner as a pair: the dtype of its column
  \<open>timestamp\<close> and its rows.
\<close>

datatype time_unit = Seconds | Milliseconds | Microseconds | Nanoseconds

datatype key_dtype = Datetime64 time_unit "string option"

text \<open>
  \<open>pd.merge_asof(left, right, on="timestamp", direction="nearest")\<close>, a left join: it
  raises \<open>MergeError\<close> when the two key columns differ in dtype, it
  refuses keys that are not ascending and null keys, and then gives every left row the right
  row found by the backward search (the last row whose key is at most the left key), or by
  the forward search (the first row whose key is at least the left key), whichever is
  nearer, the backward one on a tie; a left row gets no right row only when the right table
  is empty. There is no tolerance argument, hence no largest gap.
\<close>

record aligned_sample =
  sample_frame :: spot_frame
  sample_reading :: "temp_row option"

definition asof_backward :: "temp_row list \<Rightarrow> instant \<Rightarrow> temp_row option" where
  "asof_backward right t =
     (case filter (\<lambda>r. time_key r \<le> t) right of [] \<Rightarrow> None | r # rs \<Rightarrow> Some (last (r # rs)))"

definition asof_forward :: "temp_row list \<Rightarrow> instant \<Rightarrow> temp_row option" where
  "asof_forward right t = find (\<lambda>r. t \<le> time_key r) right"

definition asof_nearest :: "temp_row list \<Rightarrow> instant \<Rightarrow> temp_row option" where
  "asof_nearest right t =
     (case (asof_backward right t, asof_forward right t) of
        (Some b, Some f) \<Rightarrow> if t - time_key b \<le> time_key f - t then Some b else Some f
      | (Some b, None) \<Rightarrow> Some b
      | (None, fw) \<Rightarrow> fw)"

fun merge_asof ::
  "key_dtype \<times> spot_frame list \<Rightarrow> key_dtype \<times> temp_row list \<Rightarrow> error + aligned_sample list" where
  "merge_asof (left_dtype, left) (right_dtype, right) =
     (if left_dtype \<noteq> right_dtype then Inl IncompatibleMergeKeys
      else if \<not> sorted (map timestamp left) then Inl KeysNotSorted
      else if list_ex (\<lambda>r. temp_timestamp r = None) right then Inl MergeKeysNull
      else if \<not> sorted (map time_key right) then Inl KeysNotSorted
      else Inr (map (\<lambda>s. \<lparr>sample_frame = s, sample_reading = asof_nearest right (timestamp s)\<rparr>)
                  left))"

text \<open>The table \<open>merged\<close> of \<open>plot_r2_vs_temperature\<close>, which the scatter plot draws.\<close>

fun plot_r2_vs_temperature ::
  "key_dtype \<times> temp_row list \<Rightarrow> key_dtype \<times> spot_frame list \<Rightarrow> error + aligned_sample list" where
  "plot_r2_vs_temperature (temp_dtype, temp_df) (spot_dtype, spot_df) =
     merge_asof (spot_dtype, sort_key timestamp spot_df) (temp_dtype, sort_values temp_df)"

section \<open>Properties of the file-name parser\<close>

lemma digit_char_of: "is_digit c \<Longrightarrow> digit_char (digit_val c) = c \<and> digit_val c \<le> 9"
  by (auto simp: is_digit_def digit_val_def digit_char_def)

lemma fmt2_digits:
  assumes "length ds = 2" "list_all is_digit ds"
  shows "fmt2 (nat_of_digits ds) = ds"
proof -
  from assms(1) obtain a b where ds: "ds = [a, b]"
    by (cases ds; cases "tl ds"; auto)
  from assms(2) ds have a: "is_digit a" and b: "is_digit b" by auto
  have va: "digit_val a \<le> 9" and vb: "digit_val b \<le> 9"
    using a b digit_char_of by auto
  have n: "nat_of_digits ds = 10 * digit_val a + digit_val b"
    by (simp add: ds nat_of_digits_def)
  have "(10 * digit_val a + digit_val b) div 10 mod 10 = digit_val a"
    using va vb by simp
  moreover have "(10 * digit_val a + digit_val b) mod 10 = digit_val b"
    using vb by simp
  ultimately show ?thesis
    using digit_char_of[OF a] digit_char_of[OF b] unfolding fmt2_def n by (simp add: ds)
qed

lemma nat_of_digits_2_less:
  assumes "length ds = 2" "list_all is_digit ds"
  shows "nat_of_digits ds < 100"
proof -
  from assms(1) obtain a b where ds: "ds = [a, b]"
    by (cases ds; cases "tl ds"; auto)
  from assms(2) ds have "digit_val a \<le> 9" "digit_val b \<le> 9"
    using digit_char_of by auto
  then show ?thesis by (simp add: ds nat_of_digits_def)
qed

lemma nat_of_digits_append_2:
  "length ys = 2 \<Longrightarrow> nat_of_digits (xs @ ys) = 100 * nat_of_digits xs + nat_of_digits ys"
proof -
  assume "length ys = 2"
  then obtain a b where ys: "ys = [a, b]"
    by (cases ys; cases "tl ys"; auto)
  show ?thesis by (simp add: ys nat_of_digits_def)
qed

lemma fmt4_digits:
  assumes "length ds = 4" "list_all is_digit ds"
  shows "fmt4 (nat_of_digits ds) = ds"
proof -
  define hi lo where "hi = take 2 ds" and "lo = drop 2 ds"
  have ds: "ds = hi @ lo" by (simp add: hi_def lo_def)
  have len: "length hi = 2" "length lo = 2" using assms(1) by (simp_all add: hi_def lo_def)
  have dg: "list_all is_digit hi" "list_all is_digit lo"
    using assms(2) by (auto simp: hi_def lo_def list_all_iff dest: in_set_takeD in_set_dropD)
  have n: "nat_of_digits ds = 100 * nat_of_digits hi + nat_of_digits lo"
    unfolding ds by (rule nat_of_digits_append_2[OF len(2)])
  have lt: "nat_of_digits lo < 100" by (rule nat_of_digits_2_less[OF len(2) dg(2)])
  have "fmt4 (nat_of_digits ds) = fmt2 (nat_of_digits hi) @ fmt2 (nat_of_digits lo)"
    unfolding fmt4_def n using lt by simp
  then show ?thesis
    by (simp add: fmt2_digits[OF len(1) dg(1)] fmt2_digits[OF len(2) dg(2)] ds)
qed

lemma drop_split: "drop a r = take b (drop a r) @ drop (a + b) r"
  by (metis append_take_drop_id drop_drop add.commute)

lemma match_here_fields:
  assumes "match_here r = Some (d, t)"
  shows "take 14 r = ''spot_position_''" "d = take 8 (drop 14 r)"
    "take 1 (drop 22 r) = ''_''" "t = take 6 (drop 23 r)" "take 4 (drop 29 r) = ''.txt''"
    "drop 33 r = [] \<or> drop 33 r = [CHR 0x0A]"
    "length d = 8" "list_all is_digit d" "length t = 6" "list_all is_digit t"
  using assms unfolding match_here_def Let_def
  by (simp_all only: split: if_splits) auto

lemma match_here_shape:
  assumes "match_here r = Some (d, t)"
  shows "\<exists>nl. (nl = [] \<or> nl = [CHR 0x0A])
                \<and> r = ''spot_position_'' @ d @ ''_'' @ t @ ''.txt'' @ nl"
proof -
  note f = match_here_fields[OF assms]
  have "r = take 14 r @ drop 14 r" by simp
  also have "drop 14 r = take 8 (drop 14 r) @ drop 22 r"
    using drop_split[of 14 r 8] by simp
  also have "drop 22 r = take 1 (drop 22 r) @ drop 23 r"
    using drop_split[of 22 r 1] by simp
  also have "drop 23 r = take 6 (drop 23 r) @ drop 29 r"
    using drop_split[of 23 r 6] by simp
  also have "drop 29 r = take 4 (drop 29 r) @ drop 33 r"
    using drop_split[of 29 r 4] by simp
  finally have "r = ''spot_position_'' @ d @ ''_'' @ t @ ''.txt'' @ drop 33 r"
    using f(1-5) by simp
  with f(6) show ?thesis by blast
qed

lemma match_here_intro:
  assumes "length d = 8" "list_all is_digit d" "length t = 6" "list_all is_digit t"
    "nl = [] \<or> nl = [CHR 0x0A]"
  shows "match_here (''spot_position_'' @ d @ ''_'' @ t @ ''.txt'' @ nl) = Some (d, t)"
  using assms unfolding match_here_def Let_def by auto

lemma search_Some_suffix:
  "SPOT_FILENAME_PATTERN_search s = Some g \<Longrightarrow> \<exists>pre r. s = pre @ r \<and> match_here r = Some g"
proof (induction s)
  case Nil
  then show ?case by simp
next
  case (Cons c cs)
  show ?case
  proof (cases "match_here (c # cs)")
    case None
    with Cons.prems have "SPOT_FILENAME_PATTERN_search cs = Some g" by simp
    from Cons.IH[OF this] obtain pre r where "cs = pre @ r" "match_here r = Some g" by blast
    then have "c # cs = (c # pre) @ r" by simp
    with \<open>match_here r = Some g\<close> show ?thesis by blast
  next
    case (Some a)
    with Cons.prems have "a = g" by simp
    with Some have "c # cs = [] @ (c # cs) \<and> match_here (c # cs) = Some g" by simp
    then show ?thesis by blast
  qed
qed

lemma search_None_suffix:
  "SPOT_FILENAME_PATTERN_search s = None \<Longrightarrow> s = pre @ r \<Longrightarrow> match_here r = None"
proof (induction s arbitrary: pre)
  case Nil
  then show ?case by simp
next
  case (Cons c cs)
  from Cons.prems(1) have here: "match_here (c # cs) = None"
    and rest: "SPOT_FILENAME_PATTERN_search cs = None"
    by (auto split: option.splits)
  show ?case
  proof (cases pre)
    case Nil
    with Cons.prems(2) here show ?thesis by simp
  next
    case (Cons p ps)
    with Cons.prems(2) have "cs = ps @ r" by simp
    from Cons.IH[OF rest this] show ?thesis .
  qed
qed

lemma match_here_length_last:
  assumes "match_here r = Some g"
  shows "(length r = 33 \<and> last r = CHR ''t'') \<or> (length r = 34 \<and> last r = CHR 0x0A)"
proof -
  obtain d t where g: "g = (d, t)" by (cases g)
  note f = match_here_fields[OF assms[unfolded g]]
  from match_here_shape[OF assms[unfolded g]] obtain nl where
    nl: "nl = [] \<or> nl = [CHR 0x0A]" and r: "r = ''spot_position_'' @ d @ ''_'' @ t @ ''.txt'' @ nl"
    by blast
  from nl show ?thesis
  proof
    assume "nl = []"
    then show ?thesis using r f(7,9) by simp
  next
    assume "nl = [CHR 0x0A]"
    then show ?thesis using r f(7,9) by simp
  qed
qed

lemma suffix_same_length:
  assumes "p1 @ r1 = p2 @ r2" "length r1 = length r2"
  shows "r1 = r2"
  using assms by (metis append_eq_append_conv)

lemma suffix_same_last:
  assumes "p1 @ r1 = p2 @ r2" "r1 \<noteq> []" "r2 \<noteq> []"
  shows "last r1 = last r2"
  using assms by (metis last_appendR)

lemma match_here_unique:
  assumes "s = p1 @ r1" "s = p2 @ r2" "match_here r1 = Some g1" "match_here r2 = Some g2"
  shows "g1 = g2"
proof -
  from assms(1,2) have eq: "p1 @ r1 = p2 @ r2" by simp
  note l1 = match_here_length_last[OF assms(3)]
  note l2 = match_here_length_last[OF assms(4)]
  from l1 l2 have ne: "r1 \<noteq> []" "r2 \<noteq> []" by auto
  have "last r1 = last r2" by (rule suffix_same_last[OF eq ne])
  with l1 l2 have "length r1 = length r2" by auto
  from suffix_same_length[OF eq this] assms(3,4) show ?thesis by simp
qed

lemma search_decomposition:
  assumes "length d = 8" "list_all is_digit d" "length t = 6" "list_all is_digit t"
    "nl = [] \<or> nl = [CHR 0x0A]"
  shows "SPOT_FILENAME_PATTERN_search (pre @ ''spot_position_'' @ d @ ''_'' @ t @ ''.txt'' @ nl)
         = Some (d, t)"
proof -
  let ?r = "''spot_position_'' @ d @ ''_'' @ t @ ''.txt'' @ nl"
  have m: "match_here ?r = Some (d, t)" by (rule match_here_intro[OF assms])
  have "SPOT_FILENAME_PATTERN_search (pre @ ?r) \<noteq> None"
  proof
    assume n: "SPOT_FILENAME_PATTERN_search (pre @ ?r) = None"
    from search_None_suffix[OF n refl] m show False by simp
  qed
  then obtain g where g: "SPOT_FILENAME_PATTERN_search (pre @ ?r) = Some g"
    by (cases "SPOT_FILENAME_PATTERN_search (pre @ ?r)") simp_all
  from search_Some_suffix[OF g] obtain p2 r2 where
    "pre @ ?r = p2 @ r2" "match_here r2 = Some g" by blast
  from match_here_unique[OF refl this(1) m this(2)] g show ?thesis by simp
qed

lemma search_iff_pattern:
  "SPOT_FILENAME_PATTERN_search path_name = Some (d, t) \<longleftrightarrow> has_spot_pattern path_name d t"
proof
  assume s: "SPOT_FILENAME_PATTERN_search path_name = Some (d, t)"
  from search_Some_suffix[OF s] obtain pre r where
    p: "path_name = pre @ r" and m: "match_here r = Some (d, t)" by blast
  note f = match_here_fields[OF m]
  from match_here_shape[OF m] obtain nl where
    "nl = [] \<or> nl = [CHR 0x0A]" "r = ''spot_position_'' @ d @ ''_'' @ t @ ''.txt'' @ nl"
    by blast
  with p f(7-10) show "has_spot_pattern path_name d t"
    unfolding has_spot_pattern_def by blast
next
  assume "has_spot_pattern path_name d t"
  then obtain pre nl where
    p: "path_name = pre @ ''spot_position_'' @ d @ ''_'' @ t @ ''.txt'' @ nl"
    and a: "length d = 8" "list_all is_digit d" "length t = 6" "list_all is_digit t"
       "nl = [] \<or> nl = [CHR 0x0A]"
    unfolding has_spot_pattern_def by blast
  show "SPOT_FILENAME_PATTERN_search path_name = Some (d, t)"
    unfolding p by (rule search_decomposition[OF a])
qed

lemma strptime_groups:
  assumes "length d = 8" "list_all is_digit d" "length t = 6" "list_all is_digit t"
  shows "strptime (d @ t) =
           (if valid_datetime (digit_fields d t) then Inr (digit_fields d t)
            else Inl StrptimeValueError)"
proof -
  have tk: "take 4 (d @ t) = take 4 d" "take 2 (drop 4 (d @ t)) = take 2 (drop 4 d)"
    "take 2 (drop 6 (d @ t)) = drop 6 d" "take 2 (drop 8 (d @ t)) = take 2 t"
    "take 2 (drop 10 (d @ t)) = take 2 (drop 2 t)" "take 2 (drop 12 (d @ t)) = drop 4 t"
    using assms(1,3) by simp_all
  have len: "length (d @ t) = 14" using assms(1,3) by simp
  have dg: "list_all is_digit (d @ t)" using assms(2,4) by simp
  show ?thesis
    unfolding strptime_def tk Let_def using len dg
    by (simp add: valid_datetime_def digit_fields_def)
qed

lemma format_digit_fields:
  assumes "length d = 8" "list_all is_digit d" "length t = 6" "list_all is_digit t"
  shows "format_date8 (digit_fields d t) = d" "format_time6 (digit_fields d t) = t"
proof -
  have sub: "\<And>n xs. list_all is_digit xs \<Longrightarrow> list_all is_digit (take n xs)"
    "\<And>n xs. list_all is_digit xs \<Longrightarrow> list_all is_digit (drop n xs)"
    by (auto simp: list_all_iff dest: in_set_takeD in_set_dropD)
  have "fmt4 (nat_of_digits (take 4 d)) = take 4 d"
    using assms(1,2) by (intro fmt4_digits sub) simp_all
  moreover have "fmt2 (nat_of_digits (take 2 (drop 4 d))) = take 2 (drop 4 d)"
    using assms(1,2) by (intro fmt2_digits sub) simp_all
  moreover have "fmt2 (nat_of_digits (drop 6 d)) = drop 6 d"
    using assms(1,2) by (intro fmt2_digits sub) simp_all
  moreover have "take 4 d @ take 2 (drop 4 d) @ drop 6 d = d"
    using drop_split[of 4 d 2] by (metis append_take_drop_id numeral_plus_numeral semiring_norm(2,3,4,5,6,7) add.commute)
  ultimately show "format_date8 (digit_fields d t) = d"
    by (simp add: format_date8_def digit_fields_def)
  have "fmt2 (nat_of_digits (take 2 t)) = take 2 t"
    using assms(3,4) by (intro fmt2_digits sub) simp_all
  moreover have "fmt2 (nat_of_digits (take 2 (drop 2 t))) = take 2 (drop 2 t)"
    using assms(3,4) by (intro fmt2_digits sub) simp_all
  moreover have "fmt2 (nat_of_digits (drop 4 t)) = drop 4 t"
    using assms(3,4) by (intro fmt2_digits sub) simp_all
  moreover have "take 2 t @ take 2 (drop 2 t) @ drop 4 t = t"
    using drop_split[of 2 t 2] by (metis append_take_drop_id numeral_plus_numeral semiring_norm(2,3,4,5,6,7) add.commute)
  ultimately show "format_time6 (digit_fields d t) = t"
    by (simp add: format_time6_def digit_fields_def)
qed

text \<open>
  Claim C6, as the code has it. Parsing the start instant fails with the file-name error
  exactly when the name does not end with \<open>spot_position_<8 digits>_<6 digits>.txt\<close>. For a
  name that does, the result is decided by the digits alone: when they are a date and a time
  of day of the calendar, parsing succeeds and returns the instant they encode; when they
  are not (a month 13, a 30th of February, an hour 24), \<open>strptime\<close> raises its own
  \<open>ValueError\<close>.
\<close>

theorem parse_spot_start_datetime_outcomes:
  "(parse_spot_start_datetime path_name = Inl FilenameFormatError)
     = (\<not> (\<exists>d t. has_spot_pattern path_name d t))
   \<and> (\<forall>d t. has_spot_pattern path_name d t \<longrightarrow>
          parse_spot_start_datetime path_name =
            (if valid_datetime (digit_fields d t) then Inr (digit_fields d t)
             else Inl StrptimeValueError))"
proof (intro conjI allI impI)
  fix d t
  assume h: "has_spot_pattern path_name d t"
  then have s: "SPOT_FILENAME_PATTERN_search path_name = Some (d, t)"
    by (simp add: search_iff_pattern)
  from h have a: "length d = 8" "list_all is_digit d" "length t = 6" "list_all is_digit t"
    unfolding has_spot_pattern_def by blast+
  show "parse_spot_start_datetime path_name =
          (if valid_datetime (digit_fields d t) then Inr (digit_fields d t)
           else Inl StrptimeValueError)"
    unfolding parse_spot_start_datetime_def s using strptime_groups[OF a] by simp
next
  show "(parse_spot_start_datetime path_name = Inl FilenameFormatError)
          = (\<not> (\<exists>d t. has_spot_pattern path_name d t))"
  proof (cases "SPOT_FILENAME_PATTERN_search path_name")
    case None
    then have "\<not> (\<exists>d t. has_spot_pattern path_name d t)"
      by (simp add: search_iff_pattern[symmetric])
    with None show ?thesis by (simp add: parse_spot_start_datetime_def)
  next
    case (Some g)
    obtain d t where g: "g = (d, t)" by (cases g)
    from Some g have h: "has_spot_pattern path_name d t"
      by (simp add: search_iff_pattern)
    then have a: "length d = 8" "list_all is_digit d" "length t = 6" "list_all is_digit t"
      unfolding has_spot_pattern_def by blast+
    have "parse_spot_start_datetime path_name \<noteq> Inl FilenameFormatError"
      unfolding parse_spot_start_datetime_def Some g using strptime_groups[OF a] by simp
    with h show ?thesis by blast
  qed
qed

lemma has_spot_pattern_example:
  "has_spot_pattern ''data/spot_position_20240522_153000.txt'' ''20240522'' ''153000''"
  unfolding has_spot_pattern_def
  by (rule exI[of _ "''data/''"], rule exI[of _ "[]"]) (simp add: is_digit_def)

theorem parse_spot_start_datetime_outcomes_witness:
  "has_spot_pattern ''data/spot_position_20240522_153000.txt'' ''20240522'' ''153000''
   \<and> parse_spot_start_datetime ''data/spot_position_20240522_153000.txt''
       = Inr \<lparr>year = 2024, month = 5, day = 22, hour = 15, minute = 30, second = 0\<rparr>
   \<and> parse_spot_start_datetime ''notes.txt'' = Inl FilenameFormatError"
proof -
  have v: "valid_datetime (digit_fields ''20240522'' ''153000'')"
    "digit_fields ''20240522'' ''153000''
       = \<lparr>year = 2024, month = 5, day = 22, hour = 15, minute = 30, second = 0\<rparr>"
    by (simp_all add: valid_datetime_def digit_fields_def nat_of_digits_def digit_val_def
        days_in_month_def)
  have n: "parse_spot_start_datetime ''notes.txt'' = Inl FilenameFormatError"
    by (simp add: parse_spot_start_datetime_def match_here_def)
  from parse_spot_start_datetime_outcomes[of "''data/spot_position_20240522_153000.txt''"]
    has_spot_pattern_example v n
  show ?thesis by simp
qed

text \<open>
  The claim as stated promises success for every name that matches the pattern. This name
  matches, and parsing it fails: there is no month 13.
\<close>

theorem parse_spot_start_datetime_counterexample:
  "SPOT_FILENAME_PATTERN_search ''spot_position_20241301_000000.txt''
     = Some (''20241301'', ''000000'')
   \<and> parse_spot_start_datetime ''spot_position_20241301_000000.txt''
     = Inl StrptimeValueError"
  by (simp add: parse_spot_start_datetime_def match_here_def is_digit_def strptime_def
      nat_of_digits_def digit_val_def Let_def)

text \<open>
  Claim C7: the parsed start instant round-trips. Whenever a file name parses to an instant,
  formatting the instant as an 8-digit date and a 6-digit time gives back exactly the two
  digit strings that the pattern found in the name, and the name carries them at the place
  the pattern prescribes.
\<close>

theorem start_datetime_roundtrip:
  assumes "parse_spot_start_datetime path_name = Inr dt"
  shows "SPOT_FILENAME_PATTERN_search path_name = Some (format_date8 dt, format_time6 dt)
         \<and> has_spot_pattern path_name (format_date8 dt) (format_time6 dt)"
proof -
  from assms obtain d t where s: "SPOT_FILENAME_PATTERN_search path_name = Some (d, t)"
    and p: "strptime (d @ t) = Inr dt"
    by (auto simp: parse_spot_start_datetime_def split: option.splits)
  from s have h: "has_spot_pattern path_name d t" by (simp add: search_iff_pattern)
  then have a: "length d = 8" "list_all is_digit d" "length t = 6" "list_all is_digit t"
    unfolding has_spot_pattern_def by blast+
  from p strptime_groups[OF a] have dt: "dt = digit_fields d t"
    by (simp split: if_splits)
  from format_digit_fields[OF a] dt have "format_date8 dt = d" "format_time6 dt = t"
    by simp_all
  with s h show ?thesis by simp
qed

theorem start_datetime_roundtrip_witness:
  "parse_spot_start_datetime ''spot_position_20240229_235959.txt''
     = Inr \<lparr>year = 2024, month = 2, day = 29, hour = 23, minute = 59, second = 59\<rparr>
   \<and> format_date8 \<lparr>year = 2024, month = 2, day = 29, hour = 23, minute = 59, second = 59\<rparr>
     = ''20240229''
   \<and> format_time6 \<lparr>year = 2024, month = 2, day = 29, hour = 23, minute = 59, second = 59\<rparr>
     = ''235959''
   \<and> SPOT_FILENAME_PATTERN_search ''spot_position_20240229_235959.txt''
     = Some (''20240229'', ''235959'')"
proof -
  have p: "parse_spot_start_datetime ''spot_position_20240229_235959.txt''
     = Inr \<lparr>year = 2024, month = 2, day = 29, hour = 23, minute = 59, second = 59\<rparr>"
    by (simp add: parse_spot_start_datetime_def match_here_def is_digit_def strptime_def
        nat_of_digits_def digit_val_def Let_def days_in_month_def is_leap_def)
  have f: "format_date8 \<lparr>year = 2024, month = 2, day = 29, hour = 23, minute = 59, second = 59\<rparr>
     = ''20240229''"
    "format_time6 \<lparr>year = 2024, month = 2, day = 29, hour = 23, minute = 59, second = 59\<rparr>
     = ''235959''"
    by (simp_all add: format_date8_def format_time6_def fmt4_def fmt2_def digit_char_def)
  from start_datetime_roundtrip[OF p] p f show ?thesis by simp
qed

section \<open>Properties of the floats\<close>

lemma pow2_powi: "pow2 e = 2 powi e"
proof (cases "0 \<le> e")
  case True
  then show ?thesis by (simp add: pow2_def power_int_def)
next
  case False
  then show ?thesis
    by (simp add: pow2_def power_int_def power_inverse inverse_eq_divide power_one_over)
qed

lemma bit_length_upper: "n < 2 ^ bit_length n"
proof (induction n rule: bit_length.induct)
  case (1 n)
  show ?case
  proof (cases "n = 0")
    case True
    then show ?thesis by (simp add: bit_length.simps)
  next
    case False
    from 1[OF False] have "n div 2 < 2 ^ bit_length (n div 2)" .
    then have "n < 2 * 2 ^ bit_length (n div 2)" by linarith
    with False show ?thesis by (subst bit_length.simps) simp
  qed
qed

lemma bit_length_lower: "0 < n \<Longrightarrow> 2 ^ (bit_length n - 1) \<le> n"
proof (induction n rule: bit_length.induct)
  case (1 n)
  from "1.prems" have ne: "n \<noteq> 0" by simp
  show ?case
  proof (cases "n div 2 = 0")
    case True
    then have "bit_length (n div 2) = 0" by (simp add: bit_length.simps)
    with ne "1.prems" show ?thesis by (subst bit_length.simps) simp
  next
    case False
    then have pos: "0 < n div 2" by simp
    from 1(1)[OF ne pos] have ih: "2 ^ (bit_length (n div 2) - 1) \<le> n div 2" .
    from False have "bit_length (n div 2) \<noteq> 0"
      by (subst bit_length.simps) simp
    then obtain k where k: "bit_length (n div 2) = Suc k" by (cases "bit_length (n div 2)") auto
    from ih k have "2 ^ k \<le> n div 2" by simp
    then have "2 * 2 ^ k \<le> n" by linarith
    with ne k show ?thesis by (subst bit_length.simps) simp
  qed
qed


lemma floor_log2_lower:
  assumes "0 < q"
  shows "pow2 (floor_log2 q) \<le> q"
proof (cases "1 \<le> q")
  case True
  define n where "n = nat \<lfloor>q\<rfloor>"
  from True have n: "0 < n" "of_nat n \<le> q"
    by (simp_all add: n_def)
  from bit_length_lower[OF n(1)] have "(2::nat) ^ (bit_length n - 1) \<le> n" .
  then have "(of_nat (2 ^ (bit_length n - 1)) :: rat) \<le> of_nat n"
    by (simp only: of_nat_le_iff)
  then have le: "(2::rat) ^ (bit_length n - 1) \<le> of_nat n" by simp
  from n(1) have "bit_length n \<noteq> 0" by (subst bit_length.simps) simp
  then have i: "int (bit_length n) - 1 = int (bit_length n - 1)" by simp
  have "floor_log2 q = int (bit_length n) - 1"
    unfolding floor_log2_def n_def using True by (simp only: if_True)
  then have "pow2 (floor_log2 q) = pow2 (int (bit_length n - 1))" by (simp only: i)
  also have "\<dots> = 2 ^ (bit_length n - 1)" by (simp add: pow2_def)
  finally have "pow2 (floor_log2 q) = 2 ^ (bit_length n - 1)" .
  moreover from le n(2) have "(2::rat) ^ (bit_length n - 1) \<le> q" by (rule order_trans)
  ultimately show ?thesis by (simp only:)
next
  case False
  define m where "m = nat \<lceil>1 / q\<rceil>"
  from assms have "0 < 1 / q" by simp
  then have "- 1 < 1 / q" by linarith
  then have c: "0 \<le> \<lceil>1 / q\<rceil>" by (simp only: zero_le_ceiling)
  then have "(of_nat m :: rat) = of_int \<lceil>1 / q\<rceil>" by (simp add: m_def)
  then have m: "1 / q \<le> of_nat m" by (simp add: le_of_int_ceiling)
  have "m - 1 < 2 ^ bit_length (m - 1)" by (rule bit_length_upper)
  then have "m \<le> 2 ^ bit_length (m - 1)" by simp
  then have "(of_nat m :: rat) \<le> of_nat (2 ^ bit_length (m - 1))"
    by (simp only: of_nat_le_iff)
  then have "(of_nat m :: rat) \<le> 2 ^ bit_length (m - 1)" by simp
  with m have "1 / q \<le> 2 ^ bit_length (m - 1)" by (rule order_trans)
  with assms have "1 / 2 ^ bit_length (m - 1) \<le> q"
    by (simp add: field_simps)
  moreover have "floor_log2 q = - int (bit_length (m - 1))"
    unfolding floor_log2_def m_def using False by (simp only: if_False)
  then have "pow2 (floor_log2 q) = 1 / 2 ^ bit_length (m - 1)"
    by (simp add: pow2_def)
  ultimately show ?thesis by simp
qed


lemma round_half_even_of_int: "round_half_even (of_int k) = k"
  by (simp add: round_half_even_def)

lemma round_double_exact:
  assumes "0 < m" "m < 2 ^ 53" "k \<le> 1074"
  shows "round_double (of_nat m / 2 ^ k) = Finite (of_nat m / 2 ^ k)"
proof -
  define q :: rat where "q = of_nat m / 2 ^ k"
  have qpos: "0 < q" using assms(1) by (simp add: q_def)
  have q_powi: "q = of_nat m * 2 powi (- int k)"
    by (simp add: q_def power_int_minus divide_inverse)
  have "(of_nat m :: rat) < of_nat (2 ^ 53)" using assms(2) by (simp only: of_nat_less_iff)
  then have mlt: "(of_nat m :: rat) < 2 ^ 53" by simp
  have p53: "(2::rat) powi 53 = 2 ^ 53" by simp
  have "(2::rat) powi (53 + (- int k)) = 2 powi 53 * 2 powi (- int k)"
    by (rule power_int_add) simp
  then have step: "(2::rat) powi (53 - int k) = 2 ^ 53 * 2 powi (- int k)"
    by (simp only: add_uminus_conv_diff p53)
  have "0 < (2::rat) powi (- int k)" by (rule zero_less_power_int) simp
  with mlt have "of_nat m * 2 powi (- int k) < 2 ^ 53 * (2::rat) powi (- int k)"
    by (rule mult_strict_right_mono)
  then have qlt: "q < 2 powi (53 - int k)"
    by (simp only: q_powi step)
  have "2 powi (floor_log2 q) \<le> q"
    using floor_log2_lower[OF qpos] by (simp add: pow2_powi)
  with qlt have "(2::rat) powi (floor_log2 q) < 2 powi (53 - int k)" by simp
  then have fl: "floor_log2 q < 53 - int k"
    by (metis not_le power_int_increasing one_le_numeral)
  define e where "e = max (floor_log2 q) (- 1022)"
  have e_le: "e \<le> 52 - int k" using fl assms(3) by (simp add: e_def)
  define d where "d = nat (52 - int k - e)"
  have d: "int d = 52 - int k - e" using e_le by (simp add: d_def)
  define ulp :: rat where "ulp = pow2 (e - 52)"
  have ulp_powi: "ulp = 2 powi (e - 52)" by (simp add: ulp_def pow2_powi)
  have ulp_pos: "0 < ulp" by (simp add: ulp_powi zero_less_power_int)
  have "of_nat m * (2::rat) ^ d * ulp = of_nat m * (2 powi int d * 2 powi (e - 52))"
    by (simp add: ulp_powi)
  also have "2 powi int d * (2::rat) powi (e - 52) = 2 powi (int d + (e - 52))"
    by (simp add: power_int_add)
  also have "int d + (e - 52) = - int k" using d by simp
  finally have restore: "of_nat m * (2::rat) ^ d * ulp = q" by (simp add: q_powi)
  then have quot: "q / ulp = of_int (int m * 2 ^ d)"
    using ulp_pos by (simp add: field_simps)
  have rnd: "of_int (round_half_even (q / ulp)) * ulp = q"
    unfolding quot round_half_even_of_int using restore by simp
  have "q \<le> of_nat m"
    using assms(1) by (simp add: q_def field_simps)
  also have "(of_nat m :: rat) < 2 ^ 1024"
    using mlt by (rule order_less_trans) simp
  finally have small: "\<not> 2 ^ 1024 \<le> q" by simp
  have "round_double q = Finite q"
    unfolding round_double_def Let_def
    using qpos small rnd by (simp add: e_def[symmetric] ulp_def[symmetric] abs_of_pos)
  then show ?thesis by (simp add: q_def)
qed


lemma round_double_minus:
  "round_double (- q) =
     (case round_double q of
        Finite v \<Rightarrow> Finite (- v)
      | PosInf \<Rightarrow> NegInf
      | NegInf \<Rightarrow> PosInf
      | NaN \<Rightarrow> NaN)"
proof (cases "q = 0")
  case True
  then show ?thesis by (simp add: round_double_def)
next
  case False
  then consider "q < 0" | "0 < q" by linarith
  then show ?thesis
  proof cases
    case 1
    then show ?thesis
      unfolding round_double_def Let_def by (simp add: abs_of_neg)
  next
    case 2
    then show ?thesis
      unfolding round_double_def Let_def by (simp add: abs_of_pos)
  qed
qed

lemma round_double_values:
  "round_double 1 = Finite 1" "round_double 2 = Finite 2" "round_double 3 = Finite 3"
  "round_double 4 = Finite 4" "round_double 7 = Finite 7" "round_double 9 = Finite 9"
  "round_double 16 = Finite 16" "round_double 25 = Finite 25" "round_double 30 = Finite 30"
  "round_double (3 / 2) = Finite (3 / 2)" "round_double (5 / 2) = Finite (5 / 2)"
  "round_double (9 / 2) = Finite (9 / 2)" "round_double (13 / 2) = Finite (13 / 2)"
  "round_double (25 / 2) = Finite (25 / 2)"
  using round_double_exact[of 1 0] round_double_exact[of 2 0] round_double_exact[of 3 0]
    round_double_exact[of 4 0] round_double_exact[of 7 0] round_double_exact[of 9 0]
    round_double_exact[of 16 0] round_double_exact[of 25 0] round_double_exact[of 30 0]
    round_double_exact[of 3 1] round_double_exact[of 5 1] round_double_exact[of 9 1]
    round_double_exact[of 13 1] round_double_exact[of 25 1]
  by simp_all

section \<open>Properties of the numeric normalizer\<close>

lemma str_find_present:
  "c \<in> set xs \<Longrightarrow> str_find xs c = int (length (takeWhile (\<lambda>x. x \<noteq> c) xs))"
proof (induction xs)
  case Nil
  then show ?case by simp
next
  case (Cons x xs)
  show ?case
  proof (cases "x = c")
    case True
    then show ?thesis by simp
  next
    case False
    with Cons.prems have "c \<in> set xs" by simp
    from Cons.IH[OF this] False show ?thesis by (simp add: Let_def)
  qed
qed

lemma take_first_occurrence:
  assumes "c \<in> set xs"
  shows "take (Suc (length (takeWhile (\<lambda>x. x \<noteq> c) xs))) xs = takeWhile (\<lambda>x. x \<noteq> c) xs @ [c]"
    and "drop (Suc (length (takeWhile (\<lambda>x. x \<noteq> c) xs))) xs = tl (dropWhile (\<lambda>x. x \<noteq> c) xs)"
    and "hd (dropWhile (\<lambda>x. x \<noteq> c) xs) = c"
  using assms by (induction xs) auto

lemma count_list_filter: "count_list xs c = length (filter (\<lambda>x. x = c) xs)"
  by (induction xs) auto

lemma slice_at_first_dot:
  assumes "1 < count_list text (CHR ''.'')"
  shows "take (nat (str_find text (CHR ''.'') + 1)) text
           @ filter (\<lambda>c. c \<noteq> CHR ''.'') (drop (nat (str_find text (CHR ''.'') + 1)) text)
         = takeWhile (\<lambda>c. c \<noteq> CHR ''.'') text
           @ CHR ''.'' # filter (\<lambda>c. c \<noteq> CHR ''.'') (dropWhile (\<lambda>c. c \<noteq> CHR ''.'') text)"
proof -
  let ?P = "\<lambda>c. c \<noteq> CHR ''.''"
  from assms have mem: "CHR ''.'' \<in> set text"
    by (metis count_list_0_iff not_less_zero)
  have n: "nat (str_find text (CHR ''.'') + 1) = Suc (length (takeWhile ?P text))"
    by (simp add: str_find_present[OF mem])
  from mem have ne: "dropWhile ?P text \<noteq> []" by simp
  then have dw: "dropWhile ?P text = CHR ''.'' # tl (dropWhile ?P text)"
    using take_first_occurrence(3)[OF mem] by (cases "dropWhile ?P text") auto
  have "filter ?P (dropWhile ?P text) = filter ?P (tl (dropWhile ?P text))"
    by (subst dw) simp
  then show ?thesis
    unfolding n take_first_occurrence(1,2)[OF mem] by simp
qed

lemma clean_number_text:
  "clean_number (Some token) = py_float (normalize_spec (py_strip token))"
proof -
  let ?t = "str_replace (CHR '','') (CHR ''.'') (py_strip token)"
  have t: "?t = map (\<lambda>c. if c = CHR '','' then CHR ''.'' else c) (py_strip token)"
    by (simp add: str_replace_def)
  show ?thesis
  proof (cases "1 < count_list ?t (CHR ''.'')")
    case True
    from slice_at_first_dot[OF True] True show ?thesis
      unfolding clean_number_def normalize_spec_def Let_def t[symmetric]
      by (simp add: count_list_filter)
  next
    case False
    then show ?thesis
      unfolding clean_number_def normalize_spec_def Let_def t[symmetric]
      by (simp add: count_list_filter)
  qed
qed

lemma py_strip_no_space:
  assumes "list_all (\<lambda>c. \<not> is_space_str c) token"
  shows "py_strip token = token"
proof -
  have a: "\<And>xs. list_all (\<lambda>c. \<not> is_space_str c) xs \<Longrightarrow> dropWhile is_space_str xs = xs"
    by (case_tac xs) auto
  have "list_all (\<lambda>c. \<not> is_space_str c) (rev token)" using assms by (simp add: list_all_iff)
  then show ?thesis unfolding py_strip_def using a[OF assms] a[of "rev token"] by simp
qed

lemmas float_eval = clean_number_def py_strip_def is_space_str_def str_replace_def py_float_def
      is_digit_def strip_c_def is_space_c_def parse_inf_or_nan_def split_sign_def lower_def lower_char_def
      parse_decimal_def parse_exponent_def pow10_def nat_of_digits_def digit_val_def Let_def

text \<open>
  Claim C3: the numeric normalizer. For every token, the text that \<open>clean_number\<close> hands to
  \<open>float\<close> is the token, stripped of surrounding white space, with every comma replaced by a
  dot and, when that leaves more than one dot, with the first dot kept and every later dot
  removed. A token of the whitespace-delimited spot file has no white space, and then the
  text is the normalization of the token itself. A missing value gives not-a-number, and
  \<open>20.369.706\<close>, \<open>12,5\<close> and \<open>7\<close> give 20.369706 (the double that this literal denotes,
  the one nearest to the decimal number), 12.5 and 7.0.
\<close>

theorem clean_number_normalizes:
  "clean_number (Some token) = py_float (normalize_spec (py_strip token))
   \<and> (list_all (\<lambda>c. \<not> is_space_str c) token \<longrightarrow>
        clean_number (Some token) = py_float (normalize_spec token))
   \<and> clean_number None = Inr NaN
   \<and> clean_number (Some ''20.369.706'') = py_float ''20.369706''
   \<and> clean_number (Some ''20.369.706'') = Inr (round_double (20369706 / 1000000))
   \<and> clean_number (Some ''12,5'') = Inr (Finite (125 / 10))
   \<and> clean_number (Some ''7'') = Inr (Finite 7)"
proof (intro conjI impI)
  show "clean_number (Some token) = py_float (normalize_spec (py_strip token))"
    by (rule clean_number_text)
  show "clean_number (Some token) = py_float (normalize_spec token)"
    if "list_all (\<lambda>c. \<not> is_space_str c) token"
    using clean_number_text[of token] py_strip_no_space[OF that] by simp
  show "clean_number None = Inr NaN" by (simp add: clean_number_def)
  show "clean_number (Some ''20.369.706'') = py_float ''20.369706''"
    by (simp add: float_eval)
  show "clean_number (Some ''20.369.706'') = Inr (round_double (20369706 / 1000000))"
    by (simp add: float_eval)
  show "clean_number (Some ''12,5'') = Inr (Finite (125 / 10))"
    by (simp add: float_eval round_double_values)
  show "clean_number (Some ''7'') = Inr (Finite 7)"
    by (simp add: float_eval round_double_values)
qed

theorem clean_number_normalizes_witness:
  "list_all (\<lambda>c. \<not> is_space_str c) ''1.234,5.6''
   \<and> normalize_spec ''1.234,5.6'' = ''1.23456''
   \<and> clean_number (Some ''1.234,5.6'') = Inr (round_double (123456 / 100000))"
proof -
  have a: "list_all (\<lambda>c. \<not> is_space_str c) ''1.234,5.6''" by (simp add: is_space_str_def)
  have b: "normalize_spec ''1.234,5.6'' = ''1.23456''" by (simp add: normalize_spec_def)
  have c: "py_float ''1.23456'' = Inr (round_double (123456 / 100000))" by (simp add: float_eval)
  from clean_number_normalizes[of "''1.234,5.6''"] a
  have "clean_number (Some ''1.234,5.6'') = py_float (normalize_spec ''1.234,5.6'')" by blast
  with a b c show ?thesis by simp
qed

section \<open>Properties of the spot log loader\<close>

lemma series_apply_Inr:
  "series_apply f xs = Inr ys \<Longrightarrow> length ys = length xs \<and> (\<forall>i<length xs. f (xs ! i) = Inr (ys ! i))"
proof (induction xs arbitrary: ys)
  case Nil
  then show ?case by simp
next
  case (Cons x xs)
  from Cons.prems obtain v vs where v: "f x = Inr v" and vs: "series_apply f xs = Inr vs"
    and ys: "ys = v # vs"
    by (auto split: sum.splits)
  from Cons.IH[OF vs] have l: "length vs = length xs"
    and a: "\<forall>i<length xs. f (xs ! i) = Inr (vs ! i)" by simp_all
  show ?case
  proof (intro conjI allI impI)
    show "length ys = length (x # xs)" using l ys by simp
    fix i assume "i < length (x # xs)"
    then show "f ((x # xs) ! i) = Inr (ys ! i)"
      using v a ys by (cases i) simp_all
  qed
qed

lemma load_spot_positions_Inr:
  assumes "load_spot_positions path_name spot_df = Inr out"
  shows "\<exists>start_dt frames xs ys minors majors angles stamps z.
           parse_spot_start_datetime path_name = Inr start_dt
         \<and> series_apply astype_int (map frame_index_cell (spot_rows spot_df)) = Inr frames
         \<and> series_apply clean_number (map center_x_cell (spot_rows spot_df)) = Inr xs
         \<and> series_apply clean_number (map center_y_cell (spot_rows spot_df)) = Inr ys
         \<and> series_apply clean_number (map minor_axis_cell (spot_rows spot_df)) = Inr minors
         \<and> series_apply clean_number (map major_axis_cell (spot_rows spot_df)) = Inr majors
         \<and> series_apply clean_number (map angle_cell (spot_rows spot_df)) = Inr angles
         \<and> series_apply (add_minutes start_dt) frames = Inr stamps
         \<and> label_zero_row spot_df = Some z \<and> z < length (spot_rows spot_df)
         \<and> out = map (make_frame (xs ! z) (ys ! z))
                    (zip frames (zip xs (zip ys (zip minors (zip majors (zip angles stamps))))))"
  using assms unfolding load_spot_positions_def Let_def
  by (auto split: sum.splits if_splits option.splits)

lemma add_minutes_Inr:
  "add_minutes start_dt n = Inr t \<Longrightarrow> t = datetime_to_instant start_dt + n * 60 * 1000000000"
  by (simp add: add_minutes_def Let_def split: if_splits)

lemma astype_int_Inr: "astype_int c = Inr n \<Longrightarrow> c = Some n"
  by (simp add: astype_int_def split: option.splits)



text \<open>All that the loader's result says about its rows, row by row.\<close>

lemma load_spot_positions_rows:
  assumes "load_spot_positions path_name spot_df = Inr out"
  shows "\<exists>start_dt z.
           parse_spot_start_datetime path_name = Inr start_dt
         \<and> label_zero_row spot_df = Some z
         \<and> length out = length (spot_rows spot_df)
         \<and> z < length out
         \<and> (\<forall>i<length out.
               frame_index_cell (spot_rows spot_df ! i) = Some (frame_index (out ! i))
             \<and> clean_number (center_x_cell (spot_rows spot_df ! i)) = Inr (center_x_mm (out ! i))
             \<and> clean_number (center_y_cell (spot_rows spot_df ! i)) = Inr (center_y_mm (out ! i))
             \<and> timestamp (out ! i)
                 = datetime_to_instant start_dt + frame_index (out ! i) * 60 * 1000000000
             \<and> r_squared_shift_mm2 (out ! i)
                 = r_squared_shift (center_x_mm (out ! z)) (center_y_mm (out ! z))
                     (center_x_mm (out ! i)) (center_y_mm (out ! i)))"
proof -
  let ?rows = "spot_rows spot_df"
  let ?n = "length ?rows"
  from load_spot_positions_Inr[OF assms] obtain start_dt frames xs ys minors majors angles stamps z
    where p: "parse_spot_start_datetime path_name = Inr start_dt"
      and f: "series_apply astype_int (map frame_index_cell ?rows) = Inr frames"
      and x: "series_apply clean_number (map center_x_cell ?rows) = Inr xs"
      and y: "series_apply clean_number (map center_y_cell ?rows) = Inr ys"
      and mi: "series_apply clean_number (map minor_axis_cell ?rows) = Inr minors"
      and ma: "series_apply clean_number (map major_axis_cell ?rows) = Inr majors"
      and an: "series_apply clean_number (map angle_cell ?rows) = Inr angles"
      and st: "series_apply (add_minutes start_dt) frames = Inr stamps"
      and lz: "label_zero_row spot_df = Some z"
      and zn: "z < ?n"
      and out: "out = map (make_frame (xs ! z) (ys ! z))
                    (zip frames (zip xs (zip ys (zip minors (zip majors (zip angles stamps))))))"
    by blast
  note F = series_apply_Inr[OF f] and X = series_apply_Inr[OF x] and Y = series_apply_Inr[OF y]
    and MI = series_apply_Inr[OF mi] and MA = series_apply_Inr[OF ma]
    and AN = series_apply_Inr[OF an] and ST = series_apply_Inr[OF st]
  have len: "length frames = ?n" "length xs = ?n" "length ys = ?n" "length minors = ?n"
    "length majors = ?n" "length angles = ?n" "length stamps = ?n"
    using F X Y MI MA AN ST by simp_all
  have lo: "length out = ?n" by (simp add: out len)
  have row: "out ! i = make_frame (xs ! z) (ys ! z)
               (frames ! i, xs ! i, ys ! i, minors ! i, majors ! i, angles ! i, stamps ! i)"
    if "i < ?n" for i
    using that by (simp add: out len)
  have fields: "frame_index (out ! i) = frames ! i" "center_x_mm (out ! i) = xs ! i"
    "center_y_mm (out ! i) = ys ! i" "timestamp (out ! i) = stamps ! i"
    "r_squared_shift_mm2 (out ! i) = r_squared_shift (xs ! z) (ys ! z) (xs ! i) (ys ! i)"
    if "i < ?n" for i
    using row[OF that] by (simp_all add: make_frame_def)
  have "frame_index_cell (?rows ! i) = Some (frame_index (out ! i))
      \<and> clean_number (center_x_cell (?rows ! i)) = Inr (center_x_mm (out ! i))
      \<and> clean_number (center_y_cell (?rows ! i)) = Inr (center_y_mm (out ! i))
      \<and> timestamp (out ! i)
          = datetime_to_instant start_dt + frame_index (out ! i) * 60 * 1000000000
      \<and> r_squared_shift_mm2 (out ! i)
          = r_squared_shift (center_x_mm (out ! z)) (center_y_mm (out ! z))
              (center_x_mm (out ! i)) (center_y_mm (out ! i))"
    if i: "i < ?n" for i
  proof -
    have "astype_int (frame_index_cell (?rows ! i)) = Inr (frames ! i)"
      using F i by simp
    then have a: "frame_index_cell (?rows ! i) = Some (frames ! i)" by (rule astype_int_Inr)
    have b: "clean_number (center_x_cell (?rows ! i)) = Inr (xs ! i)" using X i by simp
    have c: "clean_number (center_y_cell (?rows ! i)) = Inr (ys ! i)" using Y i by simp
    have "add_minutes start_dt (frames ! i) = Inr (stamps ! i)" using ST i len by simp
    then have d: "stamps ! i = datetime_to_instant start_dt + frames ! i * 60 * 1000000000"
      by (rule add_minutes_Inr)
    show ?thesis
      using a b c d fields[OF i] fields(2,3)[OF zn] by simp
  qed
  with p lz lo zn show ?thesis by auto
qed

lemmas spot_eval = load_spot_positions_def required_columns_def parse_spot_start_datetime_def
  match_here_def strptime_def days_in_month_def is_leap_def astype_int_def add_minutes_def
  datetime_to_instant_def ymd2ord_def days_before_year_def days_before_month_def make_frame_def
  r_squared_shift_def round_double_values







text \<open>
  Claim C5: for every spot file the loader accepts and every row of it, the timestamp is the
  start instant parsed from the file name plus \<open>frame_index\<close> whole minutes, exactly, whatever
  the values of \<open>frame_index\<close> are (they need not start at 0 nor be consecutive). The output
  has the rows of the file, in file order.
\<close>

theorem spot_timestamps_one_minute_cadence:
  assumes "load_spot_positions path_name spot_df = Inr out"
  shows "\<exists>start_dt. parse_spot_start_datetime path_name = Inr start_dt
         \<and> length out = length (spot_rows spot_df)
         \<and> (\<forall>i<length out.
               frame_index_cell (spot_rows spot_df ! i) = Some (frame_index (out ! i))
             \<and> timestamp (out ! i)
                 = datetime_to_instant start_dt + frame_index (out ! i) * (60 * 1000000000))"
proof -
  from load_spot_positions_rows[OF assms] obtain start_dt z where
    p: "parse_spot_start_datetime path_name = Inr start_dt"
    and lo: "length out = length (spot_rows spot_df)"
    and rows: "\<forall>i<length out.
               frame_index_cell (spot_rows spot_df ! i) = Some (frame_index (out ! i))
             \<and> clean_number (center_x_cell (spot_rows spot_df ! i)) = Inr (center_x_mm (out ! i))
             \<and> clean_number (center_y_cell (spot_rows spot_df ! i)) = Inr (center_y_mm (out ! i))
             \<and> timestamp (out ! i)
                 = datetime_to_instant start_dt + frame_index (out ! i) * 60 * 1000000000
             \<and> r_squared_shift_mm2 (out ! i)
                 = r_squared_shift (center_x_mm (out ! z)) (center_y_mm (out ! z))
                     (center_x_mm (out ! i)) (center_y_mm (out ! i))"
    by blast
  have "\<forall>i<length out.
               frame_index_cell (spot_rows spot_df ! i) = Some (frame_index (out ! i))
             \<and> timestamp (out ! i)
                 = datetime_to_instant start_dt + frame_index (out ! i) * (60 * 1000000000)"
    using rows by (simp add: mult.assoc)
  with p lo show ?thesis by blast
qed

lemma sparse_frames_load:
  "load_spot_positions ''spot_position_20240522_153000.txt''
     \<lparr>spot_columns = required_columns @ [''comment''],
      spot_rows =
        [\<lparr>frame_index_cell = Some 5, center_x_cell = Some ''1'', center_y_cell = Some ''2'',
          minor_axis_cell = Some ''1'', major_axis_cell = Some ''2'', angle_cell = Some ''30''\<rparr>,
         \<lparr>frame_index_cell = Some 3, center_x_cell = Some ''1'', center_y_cell = Some ''2'',
          minor_axis_cell = Some ''1'', major_axis_cell = Some ''2'', angle_cell = Some ''30''\<rparr>],
      label_zero_row = Some 0\<rparr>
   = Inr [\<lparr>frame_index = 5, center_x_mm = Finite 1, center_y_mm = Finite 2,
           minor_axis_mm = Finite 1, major_axis_mm = Finite 2, angle_deg = Finite 30,
           timestamp = 63851988900000000000, r_squared_shift_mm2 = Finite 0\<rparr>,
          \<lparr>frame_index = 3, center_x_mm = Finite 1, center_y_mm = Finite 2,
           minor_axis_mm = Finite 1, major_axis_mm = Finite 2, angle_deg = Finite 30,
           timestamp = 63851988780000000000, r_squared_shift_mm2 = Finite 0\<rparr>]"
  by (simp add: spot_eval float_eval round_double_def[of 0])

theorem spot_timestamps_one_minute_cadence_witness:
  "\<exists>out. load_spot_positions ''spot_position_20240522_153000.txt''
     \<lparr>spot_columns = required_columns @ [''comment''],
      spot_rows =
        [\<lparr>frame_index_cell = Some 5, center_x_cell = Some ''1'', center_y_cell = Some ''2'',
          minor_axis_cell = Some ''1'', major_axis_cell = Some ''2'', angle_cell = Some ''30''\<rparr>,
         \<lparr>frame_index_cell = Some 3, center_x_cell = Some ''1'', center_y_cell = Some ''2'',
          minor_axis_cell = Some ''1'', major_axis_cell = Some ''2'', angle_cell = Some ''30''\<rparr>],
      label_zero_row = Some 0\<rparr>
       = Inr out
     \<and> length out = 2
     \<and> datetime_to_instant \<lparr>year = 2024, month = 5, day = 22, hour = 15, minute = 30, second = 0\<rparr>
         = 63851988600000000000
     \<and> timestamp (out ! 0) = 63851988600000000000 + 5 * (60 * 1000000000)
     \<and> timestamp (out ! 1) = 63851988600000000000 + 3 * (60 * 1000000000)"
proof -
  let ?out = "[\<lparr>frame_index = 5, center_x_mm = Finite 1, center_y_mm = Finite 2,
                 minor_axis_mm = Finite 1, major_axis_mm = Finite 2, angle_deg = Finite 30,
                 timestamp = 63851988900000000000, r_squared_shift_mm2 = Finite 0\<rparr>,
                \<lparr>frame_index = 3, center_x_mm = Finite 1, center_y_mm = Finite 2,
                 minor_axis_mm = Finite 1, major_axis_mm = Finite 2, angle_deg = Finite 30,
                 timestamp = 63851988780000000000, r_squared_shift_mm2 = Finite 0\<rparr>]"
  note e = sparse_frames_load
  from spot_timestamps_one_minute_cadence[OF e] obtain start_dt where
    p: "parse_spot_start_datetime ''spot_position_20240522_153000.txt'' = Inr start_dt"
    and t: "\<forall>i<length ?out. timestamp (?out ! i)
               = datetime_to_instant start_dt + frame_index (?out ! i) * (60 * 1000000000)"
    by blast
  have "parse_spot_start_datetime ''spot_position_20240522_153000.txt''
          = Inr \<lparr>year = 2024, month = 5, day = 22, hour = 15, minute = 30, second = 0\<rparr>"
    by (simp add: spot_eval float_eval)
  with p have s: "start_dt = \<lparr>year = 2024, month = 5, day = 22, hour = 15, minute = 30, second = 0\<rparr>"
    by simp
  have d: "datetime_to_instant
             \<lparr>year = 2024, month = 5, day = 22, hour = 15, minute = 30, second = 0\<rparr>
           = 63851988600000000000"
    by (simp add: datetime_to_instant_def ymd2ord_def days_before_year_def
        days_before_month_def is_leap_def)
  from t[rule_format, of 0] have t0: "timestamp (?out ! 0) = 63851988600000000000 + 5 * (60 * 1000000000)"
    unfolding s d by simp
  from t[rule_format, of 1] have t1: "timestamp (?out ! 1) = 63851988600000000000 + 3 * (60 * 1000000000)"
    unfolding s d by simp
  have l: "length ?out = 2" by simp
  show ?thesis
    by (rule exI[of _ ?out], intro conjI) (fact e, fact l, fact d, fact t0, fact t1)
qed

section \<open>Properties of the temperature log loader\<close>

lemma find_filter_hd:
  "find P xs = (case filter P xs of [] \<Rightarrow> None | x # _ \<Rightarrow> Some x)"
  by (induction xs) auto

lemma filter_names:
  "filter P (map col_name df) = map col_name (filter (\<lambda>c. P (col_name c)) df)"
  by (induction df) auto

lemma set_aside_candidates:
  assumes "df \<noteq> []" "c \<in> set df"
  shows "col_name c \<notin> set (if filter is_timestamp_name (map col_name df) = []
                              then [col_name (hd df)]
                              else filter is_timestamp_name (map col_name df))
         \<longleftrightarrow> \<not> set_aside df (col_name c)"
proof (cases "filter is_timestamp_name (map col_name df) = []")
  case True
  then have "\<not> list_ex (\<lambda>c. is_timestamp_name (col_name c)) df"
    by (auto simp: filter_empty_conv list_ex_iff)
  with True show ?thesis by (simp add: set_aside_def)
next
  case False
  then have "list_ex (\<lambda>c. is_timestamp_name (col_name c)) df"
    by (auto simp: filter_empty_conv list_ex_iff)
  with False assms(2) show ?thesis by (auto simp: set_aside_def)
qed

lemma identify_temperature_columns_find:
  assumes "df \<noteq> []"
  shows "identify_temperature_columns df =
     (let ts = (case find is_timestamp_name (map col_name df) of
                  Some n \<Rightarrow> n
                | None \<Rightarrow> col_name (hd df))
      in case find (\<lambda>c. \<not> set_aside df (col_name c) \<and> is_temperature_name (col_name c)) df of
           Some c \<Rightarrow> Inr (ts, col_name c)
         | None \<Rightarrow> (case find (\<lambda>c. \<not> set_aside df (col_name c) \<and> numeric_dtype c) df of
                      Some c \<Rightarrow> Inr (ts, col_name c)
                    | None \<Rightarrow> Inl ColumnInferenceError))"
proof -
  define names where "names = map col_name df"
  define tc where "tc = (if filter is_timestamp_name names = [] then [col_name (hd df)]
             else filter is_timestamp_name names)"
  define A where "A = filter (\<lambda>c. \<not> set_aside df (col_name c) \<and> is_temperature_name (col_name c)) df"
  define B where "B = filter (\<lambda>c. \<not> set_aside df (col_name c) \<and> numeric_dtype c) df"
  obtain first rest where df: "df = first # rest" using assms by (cases df) auto
  have tc_ne: "tc \<noteq> []" by (simp add: tc_def)
  have hd_tc: "hd tc = (case find is_timestamp_name names of
                  Some n \<Rightarrow> n
                | None \<Rightarrow> col_name (hd df))"
    by (simp add: tc_def find_filter_hd split: list.splits)
  have first_step: "(if filter is_timestamp_name names = []
               then (case names of [] \<Rightarrow> Inl IndexError | first # _ \<Rightarrow> Inr [first])
               else Inr (filter is_timestamp_name names)) = Inr tc"
    by (simp add: tc_def names_def df)
  have aside: "col_name c \<notin> set tc \<longleftrightarrow> \<not> set_aside df (col_name c)" if "c \<in> set df" for c
    using set_aside_candidates[OF assms that] unfolding tc_def names_def by blast
  have "filter (\<lambda>col. col \<notin> set tc \<and> is_temperature_name col) names
          = map col_name (filter (\<lambda>c. col_name c \<notin> set tc \<and> is_temperature_name (col_name c)) df)"
    unfolding names_def by (rule filter_names)
  also have "filter (\<lambda>c. col_name c \<notin> set tc \<and> is_temperature_name (col_name c)) df = A"
    unfolding A_def by (rule filter_cong[OF refl]) (simp add: aside)
  finally have v1: "filter (\<lambda>col. col \<notin> set tc \<and> is_temperature_name col) names = map col_name A" .
  have v2: "filter (\<lambda>c. col_name c \<notin> set tc \<and> numeric_dtype c) df = B"
    unfolding B_def by (rule filter_cong[OF refl]) (simp add: aside)
  have "identify_temperature_columns df =
      (case Inr tc of Inl e \<Rightarrow> Inl e
       | Inr timestamp_candidates \<Rightarrow>
             (let value_candidates =
                    filter (\<lambda>col. col \<notin> set timestamp_candidates \<and> is_temperature_name col) names;
                  value_candidates =
                    (if value_candidates = []
                     then map col_name
                            (filter (\<lambda>c. col_name c \<notin> set timestamp_candidates \<and> numeric_dtype c) df)
                     else value_candidates)
              in if timestamp_candidates = [] \<or> value_candidates = []
                 then Inl ColumnInferenceError
                 else Inr (hd timestamp_candidates, hd value_candidates)))"
    unfolding identify_temperature_columns_def Let_def names_def[symmetric] first_step ..
  also have "\<dots> = (if A \<noteq> [] then Inr (hd tc, col_name (hd A))
       else if B \<noteq> [] then Inr (hd tc, col_name (hd B))
       else Inl ColumnInferenceError)"
    unfolding sum.case Let_def v1 v2 using tc_ne by (simp add: hd_map)
  finally have code: "identify_temperature_columns df =
      (if A \<noteq> [] then Inr (hd tc, col_name (hd A))
       else if B \<noteq> [] then Inr (hd tc, col_name (hd B))
       else Inl ColumnInferenceError)" .
  have fa: "find (\<lambda>c. \<not> set_aside df (col_name c) \<and> is_temperature_name (col_name c)) df
        = (case A of [] \<Rightarrow> None | x # _ \<Rightarrow> Some x)"
    unfolding A_def by (rule find_filter_hd)
  have fb: "find (\<lambda>c. \<not> set_aside df (col_name c) \<and> numeric_dtype c) df
        = (case B of [] \<Rightarrow> None | x # _ \<Rightarrow> Some x)"
    unfolding B_def by (rule find_filter_hd)
  show ?thesis
    unfolding code Let_def fa fb names_def[symmetric] hd_tc[symmetric]
    by (cases A; cases B) simp_all
qed


lemmas name_eval = is_timestamp_name_def is_temperature_name_def lower_def lower_char_def

text \<open>
  Claim C8, as the code has it. On a table with at least one column, the timestamp column
  is the first column whose name contains \<open>time\<close> or \<open>date\<close> (or is \<open>timestamp\<close>), in any
  letter case, else the first column. The temperature column is looked for among the
  columns that are not set aside: all columns with a time-like name are set aside, not only
  the one chosen as timestamp (when no name is time-like, the first column is). It is the
  first such column whose name contains \<open>temp\<close>, \<open>deg\<close> or \<open>celsius\<close>, else the first such
  column of numeric dtype; with neither, the function raises its \<open>ValueError\<close>. Columns
  \<open>Time, TempC\<close> give \<open>Time\<close> and \<open>TempC\<close>; columns \<open>ts, value1, value2\<close> give \<open>ts\<close> and
  the first numeric column among \<open>value1, value2\<close>.
\<close>

theorem identify_temperature_columns_by_design:
  "(df \<noteq> [] \<longrightarrow>
      identify_temperature_columns df =
        (let ts = (case find is_timestamp_name (map col_name df) of
                     Some n \<Rightarrow> n
                   | None \<Rightarrow> col_name (hd df))
         in case find (\<lambda>c. \<not> set_aside df (col_name c) \<and> is_temperature_name (col_name c)) df of
              Some c \<Rightarrow> Inr (ts, col_name c)
            | None \<Rightarrow> (case find (\<lambda>c. \<not> set_aside df (col_name c) \<and> numeric_dtype c) df of
                         Some c \<Rightarrow> Inr (ts, col_name c)
                       | None \<Rightarrow> Inl ColumnInferenceError)))
   \<and> identify_temperature_columns
         [\<lparr>col_name = ''Time'', numeric_dtype = n1, cells = c1\<rparr>,
          \<lparr>col_name = ''TempC'', numeric_dtype = n2, cells = c2\<rparr>]
       = Inr (''Time'', ''TempC'')
   \<and> identify_temperature_columns
         [\<lparr>col_name = ''ts'', numeric_dtype = n1, cells = c1\<rparr>,
          \<lparr>col_name = ''value1'', numeric_dtype = True, cells = c2\<rparr>,
          \<lparr>col_name = ''value2'', numeric_dtype = n3, cells = c3\<rparr>]
       = Inr (''ts'', ''value1'')
   \<and> identify_temperature_columns
         [\<lparr>col_name = ''ts'', numeric_dtype = n1, cells = c1\<rparr>,
          \<lparr>col_name = ''value1'', numeric_dtype = False, cells = c2\<rparr>,
          \<lparr>col_name = ''value2'', numeric_dtype = True, cells = c3\<rparr>]
       = Inr (''ts'', ''value2'')"
proof (intro conjI impI)
  show "identify_temperature_columns
         [\<lparr>col_name = ''Time'', numeric_dtype = n1, cells = c1\<rparr>,
          \<lparr>col_name = ''TempC'', numeric_dtype = n2, cells = c2\<rparr>]
       = Inr (''Time'', ''TempC'')"
    by (simp add: identify_temperature_columns_def name_eval)
  show "identify_temperature_columns
         [\<lparr>col_name = ''ts'', numeric_dtype = n1, cells = c1\<rparr>,
          \<lparr>col_name = ''value1'', numeric_dtype = True, cells = c2\<rparr>,
          \<lparr>col_name = ''value2'', numeric_dtype = n3, cells = c3\<rparr>]
       = Inr (''ts'', ''value1'')"
    by (simp add: identify_temperature_columns_def name_eval)
  show "identify_temperature_columns
         [\<lparr>col_name = ''ts'', numeric_dtype = n1, cells = c1\<rparr>,
          \<lparr>col_name = ''value1'', numeric_dtype = False, cells = c2\<rparr>,
          \<lparr>col_name = ''value2'', numeric_dtype = True, cells = c3\<rparr>]
       = Inr (''ts'', ''value2'')"
    by (simp add: identify_temperature_columns_def name_eval)
qed (rule identify_temperature_columns_find)

theorem identify_temperature_columns_by_design_witness:
  "[\<lparr>col_name = ''Time'', numeric_dtype = False, cells = []\<rparr>,
    \<lparr>col_name = ''TempTime'', numeric_dtype = True, cells = []\<rparr>,
    \<lparr>col_name = ''TempC'', numeric_dtype = True, cells = []\<rparr>] \<noteq> []
   \<and> identify_temperature_columns
         [\<lparr>col_name = ''Time'', numeric_dtype = False, cells = []\<rparr>,
          \<lparr>col_name = ''TempTime'', numeric_dtype = True, cells = []\<rparr>,
          \<lparr>col_name = ''TempC'', numeric_dtype = True, cells = []\<rparr>]
       = Inr (''Time'', ''TempC'')"
proof -
  let ?df = "[\<lparr>col_name = ''Time'', numeric_dtype = False, cells = []\<rparr>,
    \<lparr>col_name = ''TempTime'', numeric_dtype = True, cells = []\<rparr>,
    \<lparr>col_name = ''TempC'', numeric_dtype = True, cells = []\<rparr>]"
  have ne: "?df \<noteq> []" by simp
  from identify_temperature_columns_by_design[of ?df] ne
  have "identify_temperature_columns ?df =
        (let ts = (case find is_timestamp_name (map col_name ?df) of
                     Some n \<Rightarrow> n
                   | None \<Rightarrow> col_name (hd ?df))
         in case find (\<lambda>c. \<not> set_aside ?df (col_name c) \<and> is_temperature_name (col_name c)) ?df of
              Some c \<Rightarrow> Inr (ts, col_name c)
            | None \<Rightarrow> (case find (\<lambda>c. \<not> set_aside ?df (col_name c) \<and> numeric_dtype c) ?df of
                         Some c \<Rightarrow> Inr (ts, col_name c)
                       | None \<Rightarrow> Inl ColumnInferenceError))"
    by blast
  also have "\<dots> = Inr (''Time'', ''TempC'')"
    by (simp add: set_aside_def name_eval)
  finally show ?thesis by simp
qed

text \<open>
  The claim as stated looks for the temperature among all columns other than the timestamp
  column. Here \<open>TempTime\<close> is another column and has a temperature-like name, yet the code
  passes over it, because its name is also time-like, and takes \<open>TempC\<close>.
\<close>

theorem identify_temperature_columns_counterexample:
  "identify_temperature_columns
         [\<lparr>col_name = ''Time'', numeric_dtype = False, cells = []\<rparr>,
          \<lparr>col_name = ''TempTime'', numeric_dtype = True, cells = []\<rparr>,
          \<lparr>col_name = ''TempC'', numeric_dtype = True, cells = []\<rparr>]
       = Inr (''Time'', ''TempC'')
   \<and> identify_columns_spec
         [\<lparr>col_name = ''Time'', numeric_dtype = False, cells = []\<rparr>,
          \<lparr>col_name = ''TempTime'', numeric_dtype = True, cells = []\<rparr>,
          \<lparr>col_name = ''TempC'', numeric_dtype = True, cells = []\<rparr>]
       = Inr (''Time'', ''TempTime'')"
  by (simp add: identify_temperature_columns_def identify_columns_spec_def name_eval Let_def)


lemma dropna_clean:
  "r \<in> set (dropna rows) \<Longrightarrow> temp_timestamp r \<noteq> None \<and> temperature_C r \<noteq> NaN"
  by (simp add: dropna_def)

lemma sort_values_no_NaT:
  assumes "\<forall>r\<in>set rows. temp_timestamp r \<noteq> None"
  shows "sort_values rows = sort_key time_key rows"
proof -
  have "filter (\<lambda>r. temp_timestamp r \<noteq> None) rows = rows"
    using assms by (simp add: filter_id_conv)
  moreover have "filter (\<lambda>r. temp_timestamp r = None) rows = []"
    using assms by (simp add: filter_empty_conv)
  ultimately show ?thesis by (simp add: sort_values_def)
qed

lemma load_temperature_data_Inr:
  assumes "load_temperature_data temp_df = Inr out"
  shows "\<exists>rows. out = sort_values (dropna rows)"
  using assms unfolding load_temperature_data_def Let_def
  by (auto split: sum.splits prod.splits)

text \<open>
  Claim C9: for every table the temperature loader accepts, the returned rows are in
  non-decreasing order of timestamp, and no returned row has a not-a-number temperature or a
  missing (unparsed) timestamp.
\<close>

theorem load_temperature_data_sorted_clean:
  assumes "load_temperature_data temp_df = Inr out"
  shows "sorted (map time_key out)
       \<and> (\<forall>r\<in>set out. temp_timestamp r \<noteq> None \<and> temperature_C r \<noteq> NaN)"
proof -
  from load_temperature_data_Inr[OF assms] obtain rows where
    out: "out = sort_values (dropna rows)" by blast
  have clean: "\<forall>r\<in>set (dropna rows). temp_timestamp r \<noteq> None"
    using dropna_clean by blast
  have eq: "out = sort_key time_key (dropna rows)"
    unfolding out by (rule sort_values_no_NaT[OF clean])
  have "sorted (map time_key out)" unfolding eq by (rule sorted_sort_key)
  moreover have "\<forall>r\<in>set out. temp_timestamp r \<noteq> None \<and> temperature_C r \<noteq> NaN"
    unfolding eq using dropna_clean by simp
  ultimately show ?thesis by blast
qed

lemmas temp_eval = load_temperature_data_def identify_temperature_columns_def name_eval
  column_cells_def to_datetime_def to_numeric_coerce_def dropna_def sort_values_def time_key_def

lemma unsorted_table_load:
  "load_temperature_data
     [\<lparr>col_name = ''Time'', numeric_dtype = False,
       cells = [\<lparr>as_datetime = Parsed 120, as_numeric = Unparseable\<rparr>,
                \<lparr>as_datetime = Parsed 60, as_numeric = Unparseable\<rparr>,
                \<lparr>as_datetime = Missing, as_numeric = Missing\<rparr>,
                \<lparr>as_datetime = Parsed 0, as_numeric = Unparseable\<rparr>]\<rparr>,
      \<lparr>col_name = ''TempC'', numeric_dtype = False,
       cells = [\<lparr>as_datetime = Unparseable, as_numeric = Parsed (Finite 21)\<rparr>,
                \<lparr>as_datetime = Unparseable, as_numeric = Parsed (Finite 22)\<rparr>,
                \<lparr>as_datetime = Unparseable, as_numeric = Parsed (Finite 23)\<rparr>,
                \<lparr>as_datetime = Unparseable, as_numeric = Unparseable\<rparr>]\<rparr>]
   = Inr [\<lparr>temp_timestamp = Some 60, temperature_C = Finite 22\<rparr>,
          \<lparr>temp_timestamp = Some 120, temperature_C = Finite 21\<rparr>]"
  by (simp add: temp_eval)

theorem load_temperature_data_sorted_clean_witness:
  "load_temperature_data
     [\<lparr>col_name = ''Time'', numeric_dtype = False,
       cells = [\<lparr>as_datetime = Parsed 120, as_numeric = Unparseable\<rparr>,
                \<lparr>as_datetime = Parsed 60, as_numeric = Unparseable\<rparr>,
                \<lparr>as_datetime = Missing, as_numeric = Missing\<rparr>,
                \<lparr>as_datetime = Parsed 0, as_numeric = Unparseable\<rparr>]\<rparr>,
      \<lparr>col_name = ''TempC'', numeric_dtype = False,
       cells = [\<lparr>as_datetime = Unparseable, as_numeric = Parsed (Finite 21)\<rparr>,
                \<lparr>as_datetime = Unparseable, as_numeric = Parsed (Finite 22)\<rparr>,
                \<lparr>as_datetime = Unparseable, as_numeric = Parsed (Finite 23)\<rparr>,
                \<lparr>as_datetime = Unparseable, as_numeric = Unparseable\<rparr>]\<rparr>]
   = Inr [\<lparr>temp_timestamp = Some 60, temperature_C = Finite 22\<rparr>,
          \<lparr>temp_timestamp = Some 120, temperature_C = Finite 21\<rparr>]
   \<and> sorted (map time_key [\<lparr>temp_timestamp = Some 60, temperature_C = Finite 22\<rparr>,
          \<lparr>temp_timestamp = Some 120, temperature_C = Finite 21\<rparr>])"
  using load_temperature_data_sorted_clean[OF unsorted_table_load] unsorted_table_load
  by blast

text \<open>
  Claim C2 says that a row whose timestamp cell or temperature cell fails to parse is
  dropped and loading goes on. The code does so for the temperature cell
  (\<open>errors="coerce"\<close>), as the second table shows, but not for the timestamp cell:
  \<open>pd.to_datetime\<close> is called without \<open>errors="coerce"\<close>, so on the first table, whose second
  timestamp cannot be parsed, the loader raises instead of returning the first row.
\<close>

theorem load_temperature_data_unparseable_timestamp:
  "load_temperature_data
     [\<lparr>col_name = ''Time'', numeric_dtype = False,
       cells = [\<lparr>as_datetime = Parsed 0, as_numeric = Unparseable\<rparr>,
                \<lparr>as_datetime = Unparseable, as_numeric = Unparseable\<rparr>]\<rparr>,
      \<lparr>col_name = ''TempC'', numeric_dtype = True,
       cells = [\<lparr>as_datetime = Unparseable, as_numeric = Parsed (Finite (43 / 2))\<rparr>,
                \<lparr>as_datetime = Unparseable, as_numeric = Parsed (Finite (217 / 10))\<rparr>]\<rparr>]
   = Inl DateParseError
   \<and> load_temperature_data
     [\<lparr>col_name = ''Time'', numeric_dtype = False,
       cells = [\<lparr>as_datetime = Parsed 0, as_numeric = Unparseable\<rparr>,
                \<lparr>as_datetime = Parsed 60, as_numeric = Unparseable\<rparr>]\<rparr>,
      \<lparr>col_name = ''TempC'', numeric_dtype = False,
       cells = [\<lparr>as_datetime = Unparseable, as_numeric = Parsed (Finite (43 / 2))\<rparr>,
                \<lparr>as_datetime = Unparseable, as_numeric = Unparseable\<rparr>]\<rparr>]
   = Inr [\<lparr>temp_timestamp = Some 0, temperature_C = Finite (43 / 2)\<rparr>]"
  by (simp add: temp_eval)

section \<open>Properties of the time aligner\<close>










lemma set_sort_values: "set (sort_values rows) = set rows"
  by (auto simp: sort_values_def)

lemma merge_asof_after_sort:
  assumes "\<forall>r\<in>set temp_df. temp_timestamp r \<noteq> None"
  shows "plot_r2_vs_temperature (dtype, temp_df) (dtype, spot_df) =
           Inr (map (\<lambda>s. \<lparr>sample_frame = s,
                           sample_reading = asof_nearest (sort_key time_key temp_df) (timestamp s)\<rparr>)
                  (sort_key timestamp spot_df))"
proof -
  have r: "sort_values temp_df = sort_key time_key temp_df"
    by (rule sort_values_no_NaT[OF assms])
  have a: "sorted (map timestamp (sort_key timestamp spot_df))" by (rule sorted_sort_key)
  have b: "\<not> list_ex (\<lambda>r. temp_timestamp r = None) (sort_key time_key temp_df)"
    using assms by (simp add: list_ex_iff)
  have c: "sorted (map time_key (sort_key time_key temp_df))" by (rule sorted_sort_key)
  show ?thesis
    unfolding plot_r2_vs_temperature.simps merge_asof.simps r using a b c by simp
qed

lemma merge_asof_dtype_mismatch:
  "temp_dtype \<noteq> spot_dtype \<Longrightarrow>
   plot_r2_vs_temperature (temp_dtype, temp_df) (spot_dtype, spot_df) = Inl IncompatibleMergeKeys"
  by auto


text \<open>
  The claim as stated promises an aligned sample for every spot frame. One spot frame whose
  timestamp column has microsecond resolution and one reading whose timestamp column has
  nanosecond resolution: the alignment raises, and there is no aligned sample.
\<close>

theorem merge_dtype_counterexample:
  "plot_r2_vs_temperature
     (Datetime64 Nanoseconds None, [\<lparr>temp_timestamp = Some 0, temperature_C = Finite 20\<rparr>])
     (Datetime64 Microseconds None,
      [\<lparr>frame_index = 0, center_x_mm = Finite 1, center_y_mm = Finite 2,
        minor_axis_mm = Finite 1, major_axis_mm = Finite 2, angle_deg = Finite 30,
        timestamp = 0, r_squared_shift_mm2 = Finite 0\<rparr>])
   = Inl IncompatibleMergeKeys"
  by simp


lemmas align_eval = plot_r2_vs_temperature.simps merge_asof.simps sort_values_def time_key_def
  asof_nearest_def asof_backward_def asof_forward_def



lemma mset_short_eq:
  assumes "mset xs = mset ys" "length xs \<le> 1"
  shows "xs = ys"
proof -
  from assms(1) have "length xs = length ys" by (rule mset_eq_length)
  with assms show ?thesis
    by (cases xs; cases ys) auto
qed

lemma distinct_keys_one_NaT:
  assumes "distinct (map temp_timestamp rows)"
  shows "length (filter (\<lambda>r. temp_timestamp r = None) rows) \<le> 1"
  using assms
proof (induction rows)
  case Nil
  then show ?case by simp
next
  case (Cons r rs)
  show ?case
  proof (cases "temp_timestamp r")
    case None
    from Cons.prems have "temp_timestamp r \<notin> temp_timestamp ` set rs" by simp
    with None have "\<forall>x\<in>set rs. temp_timestamp x \<noteq> None"
      by (metis image_eqI)
    then have "filter (\<lambda>r. temp_timestamp r = None) rs = []"
      by (simp add: filter_empty_conv)
    with None show ?thesis by simp
  next
    case (Some t)
    with Cons show ?thesis by simp
  qed
qed

lemma sort_values_permutation:
  assumes "distinct (map temp_timestamp rows)" "mset rows' = mset rows"
  shows "sort_values rows' = sort_values rows"
proof -
  let ?P = "\<lambda>r. temp_timestamp r \<noteq> None"
  have inj: "inj_on temp_timestamp (set rows)"
    using assms(1) by (simp add: distinct_map)
  have "inj_on time_key (set (filter ?P rows'))"
  proof (rule inj_onI)
    fix x y assume x: "x \<in> set (filter ?P rows')" and y: "y \<in> set (filter ?P rows')"
      and k: "time_key x = time_key y"
    from x y have "x \<in> set rows" "y \<in> set rows"
      using assms(2) by (auto dest: mset_eq_setD)
    moreover from x y k have "temp_timestamp x = temp_timestamp y"
      by (auto simp: time_key_def)
    ultimately show "x = y" using inj by (auto dest: inj_onD)
  qed
  moreover have "mset (filter ?P rows') = mset (filter ?P rows)"
    using assms(2) by simp
  ultimately have a: "sort_key time_key (filter ?P rows') = sort_key time_key (filter ?P rows)"
    by (rule sort_key_eq_sort_key[rotated])
  have "mset (filter (\<lambda>r. temp_timestamp r = None) rows')
          = mset (filter (\<lambda>r. temp_timestamp r = None) rows)"
    using assms(2) by simp
  moreover have "mset (map temp_timestamp rows') = mset (map temp_timestamp rows)"
    using assms(2) by simp
  then have "distinct (map temp_timestamp rows')"
    using assms(1) mset_eq_imp_distinct_iff by blast
  then have "length (filter (\<lambda>r. temp_timestamp r = None) rows') \<le> 1"
    by (rule distinct_keys_one_NaT)
  ultimately have b: "filter (\<lambda>r. temp_timestamp r = None) rows'
          = filter (\<lambda>r. temp_timestamp r = None) rows"
    by (rule mset_short_eq)
  show ?thesis unfolding sort_values_def a b ..
qed

lemma never_KeysNotSorted:
  "plot_r2_vs_temperature (temp_dtype, temp_df) (spot_dtype, spot_df) \<noteq> Inl KeysNotSorted"
proof (cases "temp_dtype = spot_dtype")
  case False
  then show ?thesis by (simp add: merge_asof_dtype_mismatch)
next
  case same: True
  show ?thesis
  proof (cases "\<forall>r\<in>set temp_df. temp_timestamp r \<noteq> None")
    case True
    from merge_asof_after_sort[OF True] show ?thesis unfolding same by simp
  next
    case False
    then have "list_ex (\<lambda>r. temp_timestamp r = None) (sort_values temp_df)"
      by (auto simp: list_ex_iff set_sort_values)
    moreover have "sorted (map timestamp (sort_key timestamp spot_df))" by (rule sorted_sort_key)
    ultimately show ?thesis by simp
  qed
qed

text \<open>
  Claim C10, as the code has it. The alignment sorts both inputs by timestamp itself before
  the merge, so the sortedness that \<open>merge_asof\<close> demands is never a caller's obligation and
  the run never fails for unsorted keys. When the timestamps within each input are pairwise
  distinct, the aligned output is the same for every permutation of either input's rows.
  Both hold whatever the dtypes of the two timestamp columns are.
\<close>

theorem alignment_sorts_its_inputs:
  "plot_r2_vs_temperature (temp_dtype, temp_df) (spot_dtype, spot_df) \<noteq> Inl KeysNotSorted
   \<and> (distinct (map timestamp spot_df) \<and> distinct (map temp_timestamp temp_df)
      \<and> mset spot_df' = mset spot_df \<and> mset temp_df' = mset temp_df
      \<longrightarrow> plot_r2_vs_temperature (temp_dtype, temp_df') (spot_dtype, spot_df')
            = plot_r2_vs_temperature (temp_dtype, temp_df) (spot_dtype, spot_df))"
proof (intro conjI impI)
  show "plot_r2_vs_temperature (temp_dtype, temp_df) (spot_dtype, spot_df) \<noteq> Inl KeysNotSorted"
    by (rule never_KeysNotSorted)
  assume h: "distinct (map timestamp spot_df) \<and> distinct (map temp_timestamp temp_df)
      \<and> mset spot_df' = mset spot_df \<and> mset temp_df' = mset temp_df"
  then have "inj_on timestamp (set spot_df)" "set spot_df' = set spot_df"
    by (auto simp: distinct_map dest: mset_eq_setD)
  then have "inj_on timestamp (set spot_df')" by simp
  with h have a: "sort_key timestamp spot_df' = sort_key timestamp spot_df"
    by (intro sort_key_eq_sort_key) simp_all
  from h have b: "sort_values temp_df' = sort_values temp_df"
    by (intro sort_values_permutation) simp_all
  show "plot_r2_vs_temperature (temp_dtype, temp_df') (spot_dtype, spot_df')
            = plot_r2_vs_temperature (temp_dtype, temp_df) (spot_dtype, spot_df)"
    unfolding plot_r2_vs_temperature.simps a b ..
qed

theorem alignment_sorts_its_inputs_witness:
  "distinct (map timestamp
      [\<lparr>frame_index = 7, center_x_mm = Finite 1, center_y_mm = Finite 2,
        minor_axis_mm = Finite 1, major_axis_mm = Finite 2, angle_deg = Finite 30,
        timestamp = 420, r_squared_shift_mm2 = Finite 0\<rparr>,
       \<lparr>frame_index = 4, center_x_mm = Finite 1, center_y_mm = Finite 2,
        minor_axis_mm = Finite 1, major_axis_mm = Finite 2, angle_deg = Finite 30,
        timestamp = 240, r_squared_shift_mm2 = Finite 0\<rparr>])
   \<and> distinct (map temp_timestamp
      [\<lparr>temp_timestamp = Some 600, temperature_C = Finite 21\<rparr>,
       \<lparr>temp_timestamp = Some 0, temperature_C = Finite 20\<rparr>])
   \<and> plot_r2_vs_temperature
       (Datetime64 Nanoseconds None,
        [\<lparr>temp_timestamp = Some 0, temperature_C = Finite 20\<rparr>,
        \<lparr>temp_timestamp = Some 600, temperature_C = Finite 21\<rparr>])
       (Datetime64 Nanoseconds None,
        [\<lparr>frame_index = 4, center_x_mm = Finite 1, center_y_mm = Finite 2,
         minor_axis_mm = Finite 1, major_axis_mm = Finite 2, angle_deg = Finite 30,
         timestamp = 240, r_squared_shift_mm2 = Finite 0\<rparr>,
        \<lparr>frame_index = 7, center_x_mm = Finite 1, center_y_mm = Finite 2,
         minor_axis_mm = Finite 1, major_axis_mm = Finite 2, angle_deg = Finite 30,
         timestamp = 420, r_squared_shift_mm2 = Finite 0\<rparr>])
     = plot_r2_vs_temperature
         (Datetime64 Nanoseconds None,
          [\<lparr>temp_timestamp = Some 600, temperature_C = Finite 21\<rparr>,
          \<lparr>temp_timestamp = Some 0, temperature_C = Finite 20\<rparr>])
         (Datetime64 Nanoseconds None,
          [\<lparr>frame_index = 7, center_x_mm = Finite 1, center_y_mm = Finite 2,
           minor_axis_mm = Finite 1, major_axis_mm = Finite 2, angle_deg = Finite 30,
           timestamp = 420, r_squared_shift_mm2 = Finite 0\<rparr>,
          \<lparr>frame_index = 4, center_x_mm = Finite 1, center_y_mm = Finite 2,
           minor_axis_mm = Finite 1, major_axis_mm = Finite 2, angle_deg = Finite 30,
           timestamp = 240, r_squared_shift_mm2 = Finite 0\<rparr>])"
proof -
  let ?a = "\<lparr>temp_timestamp = Some 600, temperature_C = Finite 21\<rparr>"
  let ?b = "\<lparr>temp_timestamp = Some 0, temperature_C = Finite 20\<rparr>"
  let ?s = "\<lparr>frame_index = 7, center_x_mm = Finite 1, center_y_mm = Finite 2,
        minor_axis_mm = Finite 1, major_axis_mm = Finite 2, angle_deg = Finite 30,
        timestamp = 420, r_squared_shift_mm2 = Finite 0\<rparr>"
  let ?t = "\<lparr>frame_index = 4, center_x_mm = Finite 1, center_y_mm = Finite 2,
        minor_axis_mm = Finite 1, major_axis_mm = Finite 2, angle_deg = Finite 30,
        timestamp = 240, r_squared_shift_mm2 = Finite 0\<rparr>"
  let ?ns = "Datetime64 Nanoseconds None"
  have d: "distinct (map timestamp [?s, ?t])" "distinct (map temp_timestamp [?a, ?b])"
    by simp_all
  have p: "mset [?t, ?s] = mset [?s, ?t]" "mset [?b, ?a] = mset [?a, ?b]"
    by simp_all
  from alignment_sorts_its_inputs[of ?ns "[?a, ?b]" ?ns "[?s, ?t]" "[?t, ?s]" "[?b, ?a]"] d p
  have "plot_r2_vs_temperature (?ns, [?b, ?a]) (?ns, [?t, ?s])
          = plot_r2_vs_temperature (?ns, [?a, ?b]) (?ns, [?s, ?t])"
    by blast
  with d show ?thesis by blast
qed

lemma tie_first_order:
  "plot_r2_vs_temperature
    (Datetime64 Nanoseconds None,
     [\<lparr>temp_timestamp = Some 0, temperature_C = Finite 20\<rparr>,
     \<lparr>temp_timestamp = Some 0, temperature_C = Finite 21\<rparr>])
    (Datetime64 Nanoseconds None,
     [\<lparr>frame_index = 0, center_x_mm = Finite 1, center_y_mm = Finite 2,
      minor_axis_mm = Finite 1, major_axis_mm = Finite 2, angle_deg = Finite 30,
      timestamp = 0, r_squared_shift_mm2 = Finite 0\<rparr>])
   = Inr [\<lparr>sample_frame =
              \<lparr>frame_index = 0, center_x_mm = Finite 1, center_y_mm = Finite 2,
               minor_axis_mm = Finite 1, major_axis_mm = Finite 2, angle_deg = Finite 30,
               timestamp = 0, r_squared_shift_mm2 = Finite 0\<rparr>,
             sample_reading = Some \<lparr>temp_timestamp = Some 0, temperature_C = Finite 21\<rparr>\<rparr>]"
  by (simp add: align_eval)

lemma tie_second_order:
  "plot_r2_vs_temperature
    (Datetime64 Nanoseconds None,
     [\<lparr>temp_timestamp = Some 0, temperature_C = Finite 21\<rparr>,
     \<lparr>temp_timestamp = Some 0, temperature_C = Finite 20\<rparr>])
    (Datetime64 Nanoseconds None,
     [\<lparr>frame_index = 0, center_x_mm = Finite 1, center_y_mm = Finite 2,
      minor_axis_mm = Finite 1, major_axis_mm = Finite 2, angle_deg = Finite 30,
      timestamp = 0, r_squared_shift_mm2 = Finite 0\<rparr>])
   = Inr [\<lparr>sample_frame =
              \<lparr>frame_index = 0, center_x_mm = Finite 1, center_y_mm = Finite 2,
               minor_axis_mm = Finite 1, major_axis_mm = Finite 2, angle_deg = Finite 30,
               timestamp = 0, r_squared_shift_mm2 = Finite 0\<rparr>,
             sample_reading = Some \<lparr>temp_timestamp = Some 0, temperature_C = Finite 20\<rparr>\<rparr>]"
  by (simp add: align_eval)

text \<open>
  The claim as stated promises the same output for every permutation of either input. Two
  readings with the same timestamp and different temperatures: the frame is given the one
  that comes last in the input, so swapping the two rows changes the aligned temperature.
\<close>

theorem alignment_permutation_counterexample:
  "plot_r2_vs_temperature
    (Datetime64 Nanoseconds None,
     [\<lparr>temp_timestamp = Some 0, temperature_C = Finite 20\<rparr>,
     \<lparr>temp_timestamp = Some 0, temperature_C = Finite 21\<rparr>])
    (Datetime64 Nanoseconds None,
     [\<lparr>frame_index = 0, center_x_mm = Finite 1, center_y_mm = Finite 2,
      minor_axis_mm = Finite 1, major_axis_mm = Finite 2, angle_deg = Finite 30,
      timestamp = 0, r_squared_shift_mm2 = Finite 0\<rparr>])
   = Inr [\<lparr>sample_frame =
              \<lparr>frame_index = 0, center_x_mm = Finite 1, center_y_mm = Finite 2,
               minor_axis_mm = Finite 1, major_axis_mm = Finite 2, angle_deg = Finite 30,
               timestamp = 0, r_squared_shift_mm2 = Finite 0\<rparr>,
             sample_reading = Some \<lparr>temp_timestamp = Some 0, temperature_C = Finite 21\<rparr>\<rparr>]
   \<and> plot_r2_vs_temperature
       (Datetime64 Nanoseconds None,
        [\<lparr>temp_timestamp = Some 0, temperature_C = Finite 21\<rparr>,
        \<lparr>temp_timestamp = Some 0, temperature_C = Finite 20\<rparr>])
       (Datetime64 Nanoseconds None,
        [\<lparr>frame_index = 0, center_x_mm = Finite 1, center_y_mm = Finite 2,
         minor_axis_mm = Finite 1, major_axis_mm = Finite 2, angle_deg = Finite 30,
         timestamp = 0, r_squared_shift_mm2 = Finite 0\<rparr>])
   = Inr [\<lparr>sample_frame =
              \<lparr>frame_index = 0, center_x_mm = Finite 1, center_y_mm = Finite 2,
               minor_axis_mm = Finite 1, major_axis_mm = Finite 2, angle_deg = Finite 30,
               timestamp = 0, r_squared_shift_mm2 = Finite 0\<rparr>,
             sample_reading = Some \<lparr>temp_timestamp = Some 0, temperature_C = Finite 20\<rparr>\<rparr>]"
  by (rule conjI[OF tie_first_order tie_second_order])

end
